theory Spec2Isabelle
  imports Complex_Main "HOL-Library.AList" "HOL-Library.Multiset"
begin

section \<open>Debt payoff calculator (debt\_payoff.py)\<close>

text \<open>
  The model follows \<^verbatim>\<open>calculate_debt_payoff\<close> of \<^verbatim>\<open>debt_payoff.py\<close> statement by
  statement, twice. The definitions with the suffix \<open>_with\<close> take the arithmetic of the
  numbers (sum, difference, product, quotient and the integer constants) as a parameter,
  so that what is proved of them holds of the function as Python runs it on binary
  floating point, where every operation rounds: validation, termination and the order of
  the recorded balances are stated on them. The definitions without the suffix are the same
  function at the exact arithmetic of the rationals (the lemmas \<open>_with_exact\<close>), which
  is what Python computes on \<^verbatim>\<open>Fraction\<close> inputs; the layout of the ledger, the
  bookkeeping identities and the worked examples are stated on them.
\<close>

subsection \<open>Data\<close>

text \<open>A debt is a dict with the keys \<^verbatim>\<open>name\<close>, \<^verbatim>\<open>balance\<close>, \<^verbatim>\<open>interest_rate\<close>
  and \<^verbatim>\<open>min_payment\<close>.\<close>

record 'a debt =
  name :: string
  balance :: 'a
  interest_rate :: 'a
  min_payment :: 'a

text \<open>Every \<^verbatim>\<open>raise ValueError(...)\<close> of the source, one constructor per raise site,
  carrying the values the message is formatted from.\<close>

datatype 'a error =
    NoDebts
  | NonPositiveBalance string
  | NegativeInterestRate string
  | NonPositiveMinPayment string
  | MinPaymentBelowInterest string 'a 'a
  | NegativeExtraPayment

text \<open>A monthly summary is a Python dict from column names to numbers. Python dicts keep
  insertion order and assignment to an existing key replaces the value in place, which is
  \<^const>\<open>AList.update\<close> on an association list. The ledger is the list \<^verbatim>\<open>results\<close>
  of these dicts, the rows of the returned data frame.\<close>

type_synonym 'a summary = "(string \<times> 'a) list"

definition MAX_PAYOFF_MONTHS :: nat where
  "MAX_PAYOFF_MONTHS = 1200"

definition balance_col :: "string \<Rightarrow> string" where
  "balance_col n = ''Debt '' @ n @ '' Balance''"

definition payment_col :: "string \<Rightarrow> string" where
  "payment_col n = ''Debt '' @ n @ '' Payment''"

definition interest_col :: "string \<Rightarrow> string" where
  "interest_col n = ''Debt '' @ n @ '' Interest''"

subsection \<open>Validation (lines 27--48)\<close>

definition monthly_interest :: "rat debt \<Rightarrow> rat" where
  "monthly_interest d = balance d * (interest_rate d / 100) / 12"

definition check_debt :: "rat \<Rightarrow> rat debt \<Rightarrow> rat error option" where
  "check_debt extra_payment d =
     (if balance d \<le> 0 then Some (NonPositiveBalance (name d))
      else if interest_rate d < 0 then Some (NegativeInterestRate (name d))
      else if min_payment d \<le> 0 then Some (NonPositiveMinPayment (name d))
      else if min_payment d \<le> monthly_interest d \<and> extra_payment = 0
        then Some (MinPaymentBelowInterest (name d) (min_payment d) (monthly_interest d))
      else None)"

text \<open>The \<^verbatim>\<open>for debt in debts\<close> loop of the validation: the first failing debt raises.\<close>

fun check_debts :: "rat \<Rightarrow> rat debt list \<Rightarrow> rat error option" where
  "check_debts extra_payment [] = None"
| "check_debts extra_payment (d # ds) =
     (case check_debt extra_payment d of
        Some e \<Rightarrow> Some e
      | None \<Rightarrow> check_debts extra_payment ds)"

definition validate :: "rat debt list \<Rightarrow> rat \<Rightarrow> rat error option" where
  "validate debts extra_payment =
     (if debts = [] then Some NoDebts
      else case check_debts extra_payment debts of
        Some e \<Rightarrow> Some e
      | None \<Rightarrow> if extra_payment < 0 then Some NegativeExtraPayment else None)"

subsection \<open>Strategy order (lines 54--57)\<close>

text \<open>\<^verbatim>\<open>sorted(xs, key=f)\<close> is a stable sort by ascending key, here \<^const>\<open>sort_key\<close>.
  With \<^verbatim>\<open>reverse=True\<close> CPython reverses the list, sorts it stably by ascending key and
  reverses the result.\<close>

definition sorted_by :: "('a \<Rightarrow> 'k::linorder) \<Rightarrow> 'a list \<Rightarrow> 'a list" where
  "sorted_by f xs = sort_key f xs"

definition sorted_by_reverse :: "('a \<Rightarrow> 'k::linorder) \<Rightarrow> 'a list \<Rightarrow> 'a list" where
  "sorted_by_reverse f xs = rev (sort_key f (rev xs))"

definition order_debts :: "string \<Rightarrow> ('a::linorder) debt list \<Rightarrow> 'a debt list" where
  "order_debts method debts =
     (if method = ''snowball'' then sorted_by balance debts
      else if method = ''avalanche'' then sorted_by_reverse interest_rate debts
      else debts)"

subsection \<open>One month of the simulation (lines 65--95)\<close>

text \<open>The variables the inner \<^verbatim>\<open>for debt in debts\<close> loop updates.\<close>

record 'a pass_state =
  extra_remaining :: 'a
  total_interest_paid :: 'a
  monthly_summary :: "'a summary"

text \<open>The body of the inner loop for one debt (lines 69--89); a debt with
  \<^verbatim>\<open>balance <= 0\<close> is skipped by \<^verbatim>\<open>continue\<close> and nothing changes.\<close>

definition process_debt :: "rat debt \<Rightarrow> rat pass_state \<Rightarrow> rat debt \<times> rat pass_state" where
  "process_debt d s =
     (if balance d \<le> 0 then (d, s)
      else
        let interest = balance d * (interest_rate d / 100) / 12;
            minimum_payment = min_payment d;
            payment =
              (if balance d + interest \<le> minimum_payment then balance d + interest
               else minimum_payment + (if extra_remaining s > 0 then extra_remaining s else 0));
            extra' = extra_remaining s - max 0 (payment - (interest + minimum_payment));
            principal_payment = payment - interest;
            d' = d\<lparr>balance := balance d - principal_payment\<rparr>
        in (d',
            \<lparr>extra_remaining = extra',
             total_interest_paid = total_interest_paid s + interest,
             monthly_summary =
               AList.update (interest_col (name d)) interest
                 (AList.update (payment_col (name d)) payment
                   (AList.update (balance_col (name d)) (balance d')
                     (monthly_summary s)))\<rparr>))"

fun process_debts :: "rat debt list \<Rightarrow> rat pass_state \<Rightarrow> rat debt list \<times> rat pass_state" where
  "process_debts [] s = ([], s)"
| "process_debts (d # ds) s =
     (case process_debt d s of (d', s') \<Rightarrow>
        (case process_debts ds s' of (ds', s'') \<Rightarrow> (d' # ds', s'')))"

text \<open>Line 91: the sum of the payment columns of those debts whose payment column is in
  the summary.\<close>

definition total_payment :: "rat debt list \<Rightarrow> rat summary \<Rightarrow> rat" where
  "total_payment debts ms =
     sum_list (map (\<lambda>d. the (map_of ms (payment_col (name d))))
                (filter (\<lambda>d. map_of ms (payment_col (name d)) \<noteq> None) debts))"

text \<open>The variables of the outer \<^verbatim>\<open>while\<close> loop.\<close>

record 'a sim_state =
  debts :: "'a debt list"
  interest_paid :: 'a
  results :: "'a summary list"
  month :: nat

definition loop_body :: "rat \<Rightarrow> rat sim_state \<Rightarrow> rat sim_state" where
  "loop_body extra_payment st =
     (case process_debts (debts st)
             \<lparr>extra_remaining = extra_payment,
              total_interest_paid = interest_paid st,
              monthly_summary =
                [(''Month'', of_nat (month st)), (''Total Payment'', 0),
                 (''Total Interest Paid'', interest_paid st)]\<rparr> of
        (ds', s') \<Rightarrow>
          let ms = AList.update ''Total Payment'' (total_payment ds' (monthly_summary s'))
                     (monthly_summary s');
              ms' = AList.update ''Total Interest Paid'' (total_interest_paid s') ms
          in \<lparr>debts = ds', interest_paid = total_interest_paid s',
              results = results st @ [ms'], month = month st + 1\<rparr>)"

definition loop_cond :: "rat sim_state \<Rightarrow> bool" where
  "loop_cond st \<longleftrightarrow> list_ex (\<lambda>d. balance d > 0) (debts st) \<and> month st \<le> MAX_PAYOFF_MONTHS"

subsection \<open>The simulation loop and the whole function\<close>

function payoff_loop :: "rat \<Rightarrow> rat sim_state \<Rightarrow> rat sim_state" where
  "payoff_loop extra_payment st =
     (if loop_cond st then payoff_loop extra_payment (loop_body extra_payment st) else st)"
  by pat_completeness auto
termination
proof (relation "measure (\<lambda>(e, st). Suc MAX_PAYOFF_MONTHS - month st)")
  show "wf (measure (\<lambda>(e, st). Suc MAX_PAYOFF_MONTHS - month st))"
    by simp
next
  fix extra_payment :: rat and st :: "rat sim_state"
  assume "loop_cond st"
  then have "month st \<le> MAX_PAYOFF_MONTHS"
    by (simp add: loop_cond_def)
  moreover have "month (loop_body extra_payment st) = Suc (month st)"
    by (simp add: loop_body_def Let_def split: prod.splits)
  ultimately show "((extra_payment, loop_body extra_payment st), (extra_payment, st))
      \<in> measure (\<lambda>(e, st). Suc MAX_PAYOFF_MONTHS - month st)"
    by simp
qed

definition initial_state :: "rat debt list \<Rightarrow> rat sim_state" where
  "initial_state ds = \<lparr>debts = ds, interest_paid = 0, results = [], month = 1\<rparr>"

definition simulate :: "string \<Rightarrow> rat \<Rightarrow> rat debt list \<Rightarrow> rat sim_state" where
  "simulate method extra_payment ds =
     payoff_loop extra_payment (initial_state (order_debts method ds))"

definition calculate_debt_payoff :: "rat debt list \<Rightarrow> string \<Rightarrow> rat \<Rightarrow> rat error + rat summary list" where
  "calculate_debt_payoff ds method extra_payment =
     (case validate ds extra_payment of
        Some e \<Rightarrow> Inl e
      | None \<Rightarrow> Inr (results (simulate method extra_payment ds)))"

subsection \<open>Notions used to state the properties\<close>

text \<open>The state of the simulation after \<open>k\<close> passes of the \<^verbatim>\<open>while\<close> body: its
  \<^const>\<open>debts\<close> are the working copies at the start of month \<open>k + 1\<close>.\<close>

definition after_months :: "string \<Rightarrow> rat \<Rightarrow> rat debt list \<Rightarrow> nat \<Rightarrow> rat sim_state" where
  "after_months method extra_payment ds k =
     (loop_body extra_payment ^^ k) (initial_state (order_debts method ds))"

text \<open>The summary that one pass of the \<^verbatim>\<open>while\<close> body appends to \<^verbatim>\<open>results\<close>.\<close>

definition month_record :: "rat \<Rightarrow> rat sim_state \<Rightarrow> rat summary" where
  "month_record extra_payment st = last (results (loop_body extra_payment st))"

text \<open>The interest charged in one month on a portfolio: one charge for every debt that is
  open (\<^verbatim>\<open>balance > 0\<close>) when the month starts, computed on that balance.\<close>

definition interest_charges :: "rat debt list \<Rightarrow> rat" where
  "interest_charges ds = sum_list (map monthly_interest (filter (\<lambda>d. balance d > 0) ds))"

text \<open>The values a column takes down the ledger, in month order; a row that lacks the
  column contributes nothing.\<close>

definition column_values :: "string \<Rightarrow> 'a summary list \<Rightarrow> 'a list" where
  "column_values c ledger = List.map_filter (\<lambda>r. map_of r c) ledger"

subsection \<open>The function over the arithmetic of its numbers\<close>

text \<open>
  Python runs the function on the numbers it is given, in practice binary floating point,
  whose sums, differences, products and quotients are rounded. The definitions of this
  subsection are the function once more, line by line, with the four operations and the
  integer constants taken from a parameter; the comparisons are the linear order of the
  numbers (a not-a-number value is not a number and is left out). What is proved of them
  for every arithmetic holds of the floating-point run; \<open>exact\<close> is the arithmetic
  of the rationals, at which these definitions are the ones above.
\<close>

record 'a arith =
  fadd :: "'a \<Rightarrow> 'a \<Rightarrow> 'a"
  fsub :: "'a \<Rightarrow> 'a \<Rightarrow> 'a"
  fmul :: "'a \<Rightarrow> 'a \<Rightarrow> 'a"
  fdiv :: "'a \<Rightarrow> 'a \<Rightarrow> 'a"
  fnum :: "nat \<Rightarrow> 'a"

definition exact :: "rat arith" where
  "exact = \<lparr>fadd = (+), fsub = (-), fmul = (*), fdiv = (/), fnum = of_nat\<rparr>"

text \<open>Lines 39 and 72: \<^verbatim>\<open>balance * (interest_rate / 100) / 12\<close>.\<close>

definition monthly_interest_with :: "'a arith \<Rightarrow> 'a debt \<Rightarrow> 'a" where
  "monthly_interest_with ar d =
     fdiv ar (fmul ar (balance d) (fdiv ar (interest_rate d) (fnum ar 100))) (fnum ar 12)"

definition check_debt_with ::
  "('a::linorder) arith \<Rightarrow> 'a \<Rightarrow> 'a debt \<Rightarrow> 'a error option" where
  "check_debt_with ar extra_payment d =
     (if balance d \<le> fnum ar 0 then Some (NonPositiveBalance (name d))
      else if interest_rate d < fnum ar 0 then Some (NegativeInterestRate (name d))
      else if min_payment d \<le> fnum ar 0 then Some (NonPositiveMinPayment (name d))
      else if min_payment d \<le> monthly_interest_with ar d \<and> extra_payment = fnum ar 0
        then Some (MinPaymentBelowInterest (name d) (min_payment d)
                     (monthly_interest_with ar d))
      else None)"

fun check_debts_with ::
  "('a::linorder) arith \<Rightarrow> 'a \<Rightarrow> 'a debt list \<Rightarrow> 'a error option" where
  "check_debts_with ar extra_payment [] = None"
| "check_debts_with ar extra_payment (d # ds) =
     (case check_debt_with ar extra_payment d of
        Some e \<Rightarrow> Some e
      | None \<Rightarrow> check_debts_with ar extra_payment ds)"

definition validate_with ::
  "('a::linorder) arith \<Rightarrow> 'a debt list \<Rightarrow> 'a \<Rightarrow> 'a error option" where
  "validate_with ar ds extra_payment =
     (if ds = [] then Some NoDebts
      else case check_debts_with ar extra_payment ds of
        Some e \<Rightarrow> Some e
      | None \<Rightarrow> if extra_payment < fnum ar 0 then Some NegativeExtraPayment else None)"

text \<open>Lines 69--89. \<^verbatim>\<open>max(0, x)\<close> is \<open>x\<close> when \<^verbatim>\<open>x > 0\<close> and the
  constant 0 otherwise.\<close>

definition process_debt_with ::
  "('a::linorder) arith \<Rightarrow> 'a debt \<Rightarrow> 'a pass_state \<Rightarrow> 'a debt \<times> 'a pass_state" where
  "process_debt_with ar d s =
     (if balance d \<le> fnum ar 0 then (d, s)
      else
        let interest =
              fdiv ar (fmul ar (balance d) (fdiv ar (interest_rate d) (fnum ar 100)))
                (fnum ar 12);
            minimum_payment = min_payment d;
            payment =
              (if fadd ar (balance d) interest \<le> minimum_payment
               then fadd ar (balance d) interest
               else fadd ar minimum_payment
                      (if fnum ar 0 < extra_remaining s then extra_remaining s else fnum ar 0));
            excess = fsub ar payment (fadd ar interest minimum_payment);
            extra' = fsub ar (extra_remaining s) (if fnum ar 0 < excess then excess else fnum ar 0);
            principal_payment = fsub ar payment interest;
            d' = d\<lparr>balance := fsub ar (balance d) principal_payment\<rparr>
        in (d',
            \<lparr>extra_remaining = extra',
             total_interest_paid = fadd ar (total_interest_paid s) interest,
             monthly_summary =
               AList.update (interest_col (name d)) interest
                 (AList.update (payment_col (name d)) payment
                   (AList.update (balance_col (name d)) (balance d')
                     (monthly_summary s)))\<rparr>))"

fun process_debts_with ::
  "('a::linorder) arith \<Rightarrow> 'a debt list \<Rightarrow> 'a pass_state \<Rightarrow> 'a debt list \<times> 'a pass_state"
  where
  "process_debts_with ar [] s = ([], s)"
| "process_debts_with ar (d # ds) s =
     (case process_debt_with ar d s of (d', s') \<Rightarrow>
        (case process_debts_with ar ds s' of (ds', s'') \<Rightarrow> (d' # ds', s'')))"

text \<open>Line 91: \<^verbatim>\<open>sum\<close> starts from 0 and adds the payments from left to right.\<close>

definition total_payment_with :: "'a arith \<Rightarrow> 'a debt list \<Rightarrow> 'a summary \<Rightarrow> 'a" where
  "total_payment_with ar ds ms =
     foldl (fadd ar) (fnum ar 0)
       (map (\<lambda>d. the (map_of ms (payment_col (name d))))
          (filter (\<lambda>d. map_of ms (payment_col (name d)) \<noteq> None) ds))"

definition loop_body_with ::
  "('a::linorder) arith \<Rightarrow> 'a \<Rightarrow> 'a sim_state \<Rightarrow> 'a sim_state" where
  "loop_body_with ar extra_payment st =
     (case process_debts_with ar (debts st)
             \<lparr>extra_remaining = extra_payment,
              total_interest_paid = interest_paid st,
              monthly_summary =
                [(''Month'', fnum ar (month st)), (''Total Payment'', fnum ar 0),
                 (''Total Interest Paid'', interest_paid st)]\<rparr> of
        (ds', s') \<Rightarrow>
          let ms = AList.update ''Total Payment''
                     (total_payment_with ar ds' (monthly_summary s')) (monthly_summary s');
              ms' = AList.update ''Total Interest Paid'' (total_interest_paid s') ms
          in \<lparr>debts = ds', interest_paid = total_interest_paid s',
              results = results st @ [ms'], month = month st + 1\<rparr>)"

definition loop_cond_with :: "('a::linorder) arith \<Rightarrow> 'a sim_state \<Rightarrow> bool" where
  "loop_cond_with ar st \<longleftrightarrow>
     list_ex (\<lambda>d. fnum ar 0 < balance d) (debts st) \<and> month st \<le> MAX_PAYOFF_MONTHS"

function payoff_loop_with ::
  "('a::linorder) arith \<Rightarrow> 'a \<Rightarrow> 'a sim_state \<Rightarrow> 'a sim_state" where
  "payoff_loop_with ar extra_payment st =
     (if loop_cond_with ar st
      then payoff_loop_with ar extra_payment (loop_body_with ar extra_payment st)
      else st)"
  by pat_completeness auto
termination
proof (relation "measure (\<lambda>(ar, e, st). Suc MAX_PAYOFF_MONTHS - month st)")
  show "wf (measure (\<lambda>(ar, e, st). Suc MAX_PAYOFF_MONTHS - month st))"
    by simp
next
  fix ar :: "'a arith" and extra_payment :: 'a and st :: "'a sim_state"
  assume "loop_cond_with ar st"
  then have "month st \<le> MAX_PAYOFF_MONTHS"
    by (simp add: loop_cond_with_def)
  moreover have "month (loop_body_with ar extra_payment st) = Suc (month st)"
    by (simp add: loop_body_with_def Let_def split: prod.splits)
  ultimately show "((ar, extra_payment, loop_body_with ar extra_payment st), (ar, extra_payment, st))
      \<in> measure (\<lambda>(ar, e, st). Suc MAX_PAYOFF_MONTHS - month st)"
    by simp
qed

definition initial_state_with :: "'a arith \<Rightarrow> 'a debt list \<Rightarrow> 'a sim_state" where
  "initial_state_with ar ds = \<lparr>debts = ds, interest_paid = fnum ar 0, results = [], month = 1\<rparr>"

definition simulate_with ::
  "('a::linorder) arith \<Rightarrow> string \<Rightarrow> 'a \<Rightarrow> 'a debt list \<Rightarrow> 'a sim_state" where
  "simulate_with ar method extra_payment ds =
     payoff_loop_with ar extra_payment (initial_state_with ar (order_debts method ds))"

definition calculate_debt_payoff_with ::
  "('a::linorder) arith \<Rightarrow> 'a debt list \<Rightarrow> string \<Rightarrow> 'a \<Rightarrow> 'a error + 'a summary list" where
  "calculate_debt_payoff_with ar ds method extra_payment =
     (case validate_with ar ds extra_payment of
        Some e \<Rightarrow> Inl e
      | None \<Rightarrow> Inr (results (simulate_with ar method extra_payment ds)))"

text \<open>The state after \<open>k\<close> passes of the \<^verbatim>\<open>while\<close> body, and the summary a pass
  appends.\<close>

definition after_months_with ::
  "('a::linorder) arith \<Rightarrow> string \<Rightarrow> 'a \<Rightarrow> 'a debt list \<Rightarrow> nat \<Rightarrow> 'a sim_state" where
  "after_months_with ar method extra_payment ds k =
     (loop_body_with ar extra_payment ^^ k) (initial_state_with ar (order_debts method ds))"

definition month_record_with :: "('a::linorder) arith \<Rightarrow> 'a \<Rightarrow> 'a sim_state \<Rightarrow> 'a summary" where
  "month_record_with ar extra_payment st = last (results (loop_body_with ar extra_payment st))"

text \<open>
  What rounding to the nearest number keeps of the order: adding a number that is not
  negative does not give less, taking one away does not give more, a difference of
  \<open>x\<close> and a smaller number is not negative, and a product with a factor that is not
  negative and a quotient by a positive constant are monotone. Exact arithmetic has these
  properties, and so has binary floating point as long as no operation overflows.
\<close>

definition monotone_arith :: "('a::linorder) arith \<Rightarrow> bool" where
  "monotone_arith ar \<longleftrightarrow>
     (\<forall>x y. fnum ar 0 \<le> y \<longrightarrow> x \<le> fadd ar x y) \<and>
     (\<forall>x y. fnum ar 0 \<le> x \<longrightarrow> y \<le> fadd ar x y) \<and>
     (\<forall>x y. fnum ar 0 \<le> y \<longrightarrow> fsub ar x y \<le> x) \<and>
     (\<forall>x y. y \<le> x \<longrightarrow> fnum ar 0 \<le> fsub ar x y) \<and>
     (\<forall>x y c. fnum ar 0 \<le> c \<longrightarrow> x \<le> y \<longrightarrow> fmul ar x c \<le> fmul ar y c) \<and>
     (\<forall>x y. x \<le> y \<longrightarrow> fdiv ar x (fnum ar 12) \<le> fdiv ar y (fnum ar 12)) \<and>
     (\<forall>x. fnum ar 0 \<le> x \<longrightarrow> fnum ar 0 \<le> fdiv ar x (fnum ar 100))"

text \<open>The loop equation is unfolded by hand, one pass at a time.\<close>

declare payoff_loop.simps [simp del]

declare payoff_loop_with.simps [simp del]

section \<open>Column names\<close>

lemma fixed_cols [simp]:
  "balance_col n \<noteq> ''Month''" "balance_col n \<noteq> ''Total Payment''" "balance_col n \<noteq> ''Total Interest Paid''"
  "payment_col n \<noteq> ''Month''" "payment_col n \<noteq> ''Total Payment''" "payment_col n \<noteq> ''Total Interest Paid''"
  "interest_col n \<noteq> ''Month''" "interest_col n \<noteq> ''Total Payment''" "interest_col n \<noteq> ''Total Interest Paid''"
  "''Month'' \<noteq> balance_col n" "''Total Payment'' \<noteq> balance_col n" "''Total Interest Paid'' \<noteq> balance_col n"
  "''Month'' \<noteq> payment_col n" "''Total Payment'' \<noteq> payment_col n" "''Total Interest Paid'' \<noteq> payment_col n"
  "''Month'' \<noteq> interest_col n" "''Total Payment'' \<noteq> interest_col n" "''Total Interest Paid'' \<noteq> interest_col n"
  by (simp_all add: balance_col_def payment_col_def interest_col_def)

lemma col_inj [simp]:
  "balance_col n = balance_col n' \<longleftrightarrow> n = n'"
  "payment_col n = payment_col n' \<longleftrightarrow> n = n'"
  "interest_col n = interest_col n' \<longleftrightarrow> n = n'"
  by (simp_all add: balance_col_def payment_col_def interest_col_def)

lemma balance_payment_col: "balance_col n \<noteq> payment_col n'"
proof
  assume "balance_col n = payment_col n'"
  then have "last (balance_col n) = last (payment_col n')" by simp
  then show False by (simp add: balance_col_def payment_col_def)
qed

lemma balance_interest_col: "balance_col n \<noteq> interest_col n'"
proof
  assume "balance_col n = interest_col n'"
  then have "last (balance_col n) = last (interest_col n')" by simp
  then show False by (simp add: balance_col_def interest_col_def)
qed

lemma payment_interest_col: "payment_col n \<noteq> interest_col n'"
proof
  assume "payment_col n = interest_col n'"
  then have "last (butlast (payment_col n)) = last (butlast (interest_col n'))" by simp
  then show False by (simp add: payment_col_def interest_col_def butlast_append)
qed

lemmas col_distinct [simp] =
  balance_payment_col balance_payment_col [symmetric]
  balance_interest_col balance_interest_col [symmetric]
  payment_interest_col payment_interest_col [symmetric]


section \<open>Validation and ordering\<close>

lemma check_debts_None:
  "check_debts extra ds = None \<longleftrightarrow> (\<forall>d\<in>set ds. check_debt extra d = None)"
  by (induction ds) (auto split: option.splits)

lemma check_debt_None:
  "check_debt extra d = None \<longleftrightarrow>
     \<not> (balance d \<le> 0 \<or> interest_rate d < 0 \<or> min_payment d \<le> 0 \<or>
        (min_payment d \<le> balance d * (interest_rate d / 100) / 12 \<and> extra = 0))"
  by (auto simp: check_debt_def monthly_interest_def)

lemma validate_None_checks:
  "validate ds extra = None \<longleftrightarrow> ds \<noteq> [] \<and> check_debts extra ds = None \<and> \<not> extra < 0"
  by (simp add: validate_def split: option.splits)

lemma validate_None:
  "validate ds extra = None \<longleftrightarrow>
     ds \<noteq> [] \<and> 0 \<le> extra \<and>
     (\<forall>d\<in>set ds. 0 < balance d \<and> 0 \<le> interest_rate d \<and> 0 < min_payment d \<and>
        (extra = 0 \<longrightarrow> monthly_interest d < min_payment d))"
  unfolding validate_None_checks check_debts_None check_debt_None monthly_interest_def
  by (auto simp: not_le not_less)

lemma sorted_by_reverse_desc:
  "sorted_wrt (\<lambda>a b. f a \<ge> f b) (sorted_by_reverse f xs)"
proof -
  have "sorted (map f (sort_key f (rev xs)))" by simp
  then have "sorted_wrt (\<lambda>a b. f a \<le> f b) (sort_key f (rev xs))"
    by (simp add: sorted_map)
  then show ?thesis
    by (simp add: sorted_by_reverse_def sorted_wrt_rev)
qed

lemma sorted_by_reverse_stable:
  "filter (\<lambda>x. f x = k) (sorted_by_reverse f xs) = filter (\<lambda>x. f x = k) xs"
  by (simp add: sorted_by_reverse_def sort_key_stable flip: rev_filter)

lemma sort_key_input_order:
  assumes "mset ys = mset xs"
    and "\<And>k. filter (\<lambda>x. f x = k) ys = filter (\<lambda>x. f x = k) xs"
  shows "sort_key f ys = sort_key f xs"
proof (rule properties_for_sort_key)
  show "mset (sort_key f xs) = mset ys" using assms(1) by simp
  show "sorted (map f (sort_key f xs))" by simp
  fix k
  have "filter (\<lambda>x. f x = f k) (sort_key f xs) = filter (\<lambda>x. f x = f k) ys"
    by (simp add: sort_key_stable assms(2))
  then show "filter (\<lambda>x. f k = f x) (sort_key f xs) = filter (\<lambda>x. f k = f x) ys"
    by (simp add: eq_commute)
qed

lemma sorted_by_reverse_input_order:
  assumes "mset ys = mset xs"
    and "\<And>k. filter (\<lambda>x. f x = k) ys = filter (\<lambda>x. f x = k) xs"
  shows "sorted_by_reverse f ys = sorted_by_reverse f xs"
proof -
  have "sort_key f (rev ys) = sort_key f (rev xs)"
  proof (rule sort_key_input_order)
    show "mset (rev ys) = mset (rev xs)" using assms(1) by simp
    show "filter (\<lambda>x. f x = k) (rev ys) = filter (\<lambda>x. f x = k) (rev xs)" for k
      by (simp add: assms(2) flip: rev_filter)
  qed
  then show ?thesis by (simp add: sorted_by_reverse_def)
qed

text \<open>
  Claim C4. The working order of the simulation: with \<^verbatim>\<open>snowball\<close> the debts are in
  ascending order of balance, with \<^verbatim>\<open>avalanche\<close> in descending order of interest rate;
  both orders are rearrangements of the input in which debts with equal sort key keep their
  relative input order; and the order depends on the input order in no other way: two
  inputs holding the same debts, with the same relative order among debts of equal key, give
  the same working order.
\<close>

theorem strategy_order:
  "sorted_wrt (\<lambda>a b. balance a \<le> balance b) (order_debts ''snowball'' ds) \<and>
   sorted_wrt (\<lambda>a b. interest_rate a \<ge> interest_rate b) (order_debts ''avalanche'' ds) \<and>
   mset (order_debts ''snowball'' ds) = mset ds \<and>
   mset (order_debts ''avalanche'' ds) = mset ds \<and>
   (\<forall>k. filter (\<lambda>d. balance d = k) (order_debts ''snowball'' ds) = filter (\<lambda>d. balance d = k) ds) \<and>
   (\<forall>k. filter (\<lambda>d. interest_rate d = k) (order_debts ''avalanche'' ds)
         = filter (\<lambda>d. interest_rate d = k) ds) \<and>
   (\<forall>ds'. mset ds' = mset ds \<and> (\<forall>k. filter (\<lambda>d. balance d = k) ds' = filter (\<lambda>d. balance d = k) ds)
         \<longrightarrow> order_debts ''snowball'' ds' = order_debts ''snowball'' ds) \<and>
   (\<forall>ds'. mset ds' = mset ds \<and>
          (\<forall>k. filter (\<lambda>d. interest_rate d = k) ds' = filter (\<lambda>d. interest_rate d = k) ds)
         \<longrightarrow> order_debts ''avalanche'' ds' = order_debts ''avalanche'' ds)"
proof -
  have snow: "order_debts ''snowball'' xs = sort_key balance xs" for xs
    by (simp add: order_debts_def sorted_by_def)
  have aval: "order_debts ''avalanche'' xs = sorted_by_reverse interest_rate xs" for xs
    by (simp add: order_debts_def)
  have "sorted (map balance (sort_key balance ds))" by simp
  then have 1: "sorted_wrt (\<lambda>a b. balance a \<le> balance b) (order_debts ''snowball'' ds)"
    by (simp add: snow sorted_map)
  have 2: "sorted_wrt (\<lambda>a b. interest_rate a \<ge> interest_rate b) (order_debts ''avalanche'' ds)"
    unfolding aval by (rule sorted_by_reverse_desc)
  have 3: "mset (order_debts ''snowball'' ds) = mset ds" by (simp add: snow)
  have 4: "mset (order_debts ''avalanche'' ds) = mset ds"
    by (simp add: aval sorted_by_reverse_def)
  have 5: "\<forall>k. filter (\<lambda>d. balance d = k) (order_debts ''snowball'' ds)
            = filter (\<lambda>d. balance d = k) ds"
    by (simp add: snow sort_key_stable)
  have 6: "\<forall>k. filter (\<lambda>d. interest_rate d = k) (order_debts ''avalanche'' ds)
         = filter (\<lambda>d. interest_rate d = k) ds"
    by (simp add: aval sorted_by_reverse_stable)
  have 7: "\<forall>ds'. mset ds' = mset ds \<and>
          (\<forall>k. filter (\<lambda>d. balance d = k) ds' = filter (\<lambda>d. balance d = k) ds)
         \<longrightarrow> order_debts ''snowball'' ds' = order_debts ''snowball'' ds"
    unfolding snow by (blast intro: sort_key_input_order)
  have 8: "\<forall>ds'. mset ds' = mset ds \<and>
          (\<forall>k. filter (\<lambda>d. interest_rate d = k) ds' = filter (\<lambda>d. interest_rate d = k) ds)
         \<longrightarrow> order_debts ''avalanche'' ds' = order_debts ''avalanche'' ds"
    unfolding aval by (blast intro: sorted_by_reverse_input_order)
  from 1 2 3 4 5 6 7 8 show ?thesis by blast
qed

theorem strategy_order_witness:
  "order_debts ''snowball''
     [\<lparr>name = ''A'', balance = 500 :: rat, interest_rate = 10, min_payment = 50\<rparr>,
      \<lparr>name = ''B'', balance = 200, interest_rate = 20, min_payment = 50\<rparr>,
      \<lparr>name = ''C'', balance = 200, interest_rate = 10, min_payment = 50\<rparr>]
   = [\<lparr>name = ''B'', balance = 200, interest_rate = 20, min_payment = 50\<rparr>,
      \<lparr>name = ''C'', balance = 200, interest_rate = 10, min_payment = 50\<rparr>,
      \<lparr>name = ''A'', balance = 500 :: rat, interest_rate = 10, min_payment = 50\<rparr>] \<and>
   order_debts ''avalanche''
     [\<lparr>name = ''A'', balance = 500 :: rat, interest_rate = 10, min_payment = 50\<rparr>,
      \<lparr>name = ''B'', balance = 200, interest_rate = 20, min_payment = 50\<rparr>,
      \<lparr>name = ''C'', balance = 200, interest_rate = 10, min_payment = 50\<rparr>]
   = [\<lparr>name = ''B'', balance = 200, interest_rate = 20, min_payment = 50\<rparr>,
      \<lparr>name = ''A'', balance = 500 :: rat, interest_rate = 10, min_payment = 50\<rparr>,
      \<lparr>name = ''C'', balance = 200, interest_rate = 10, min_payment = 50\<rparr>]"
  using strategy_order
    [of "[\<lparr>name = ''A'', balance = 500 :: rat, interest_rate = 10, min_payment = 50\<rparr>,
      \<lparr>name = ''B'', balance = 200, interest_rate = 20, min_payment = 50\<rparr>,
      \<lparr>name = ''C'', balance = 200, interest_rate = 10, min_payment = 50\<rparr>]"]
  by (simp add: order_debts_def sorted_by_def sorted_by_reverse_def)

lemma order_debts_other:
  "method \<noteq> ''snowball'' \<Longrightarrow> method \<noteq> ''avalanche'' \<Longrightarrow> order_debts method ds = ds"
  by (simp add: order_debts_def)

section \<open>One debt\<close>

lemma process_debt_skip: "balance d \<le> 0 \<Longrightarrow> process_debt d s = (d, s)"
  by (simp add: process_debt_def)

lemma process_debt_fields:
  assumes "process_debt d s = (d', s')"
  shows "name d' = name d" "interest_rate d' = interest_rate d" "min_payment d' = min_payment d"
  using assms by (auto simp: process_debt_def Let_def split: if_splits)

lemma process_debt_interest:
  assumes "process_debt d s = (d', s')"
  shows "total_interest_paid s' =
         total_interest_paid s + (if 0 < balance d then monthly_interest d else 0)"
  using assms by (auto simp: process_debt_def Let_def monthly_interest_def split: if_splits)

lemma process_debt_summary:
  assumes "process_debt d s = (d', s')" "0 < balance d"
  shows "map_of (monthly_summary s') =
         (map_of (monthly_summary s))
           (balance_col (name d) \<mapsto> balance d',
            payment_col (name d) \<mapsto> balance d - balance d' + monthly_interest d,
            interest_col (name d) \<mapsto> monthly_interest d)"
  using assms
  by (auto simp: process_debt_def Let_def monthly_interest_def update_conv' split: if_splits)

lemma process_debt_open:
  assumes "process_debt d s = (d', s')" "0 < balance d"
  shows "map_of (monthly_summary s') (balance_col (name d)) = Some (balance d')"
    and "map_of (monthly_summary s') (interest_col (name d)) = Some (monthly_interest d)"
    and "map_of (monthly_summary s') (payment_col (name d))
           = Some (balance d - balance d' + monthly_interest d)"
  by (simp_all add: process_debt_summary [OF assms])

lemma process_debt_other_key:
  assumes "process_debt d s = (d', s')"
    and "0 < balance d \<Longrightarrow>
           c \<noteq> balance_col (name d) \<and> c \<noteq> payment_col (name d) \<and> c \<noteq> interest_col (name d)"
  shows "map_of (monthly_summary s') c = map_of (monthly_summary s) c"
proof (cases "0 < balance d")
  case True
  with assms(2) show ?thesis by (simp add: process_debt_summary [OF assms(1) True])
next
  case False
  with assms(1) show ?thesis by (simp add: process_debt_skip)
qed

lemma process_debt_keeps_key:
  assumes "process_debt d s = (d', s')" "map_of (monthly_summary s) c \<noteq> None"
  shows "map_of (monthly_summary s') c \<noteq> None"
proof (cases "0 < balance d")
  case True
  with assms(2) show ?thesis by (simp add: process_debt_summary [OF assms(1) True])
next
  case False
  with assms show ?thesis by (simp add: process_debt_skip)
qed

section \<open>One pass over the portfolio\<close>

lemma process_debts_fields:
  assumes "process_debts ds s = (ds', s')"
  shows "length ds' = length ds" "map name ds' = map name ds"
    "map interest_rate ds' = map interest_rate ds" "map min_payment ds' = map min_payment ds"
  using assms
  by (induction ds arbitrary: s ds' s'; auto split: prod.splits dest: process_debt_fields)+

lemma process_debts_interest:
  assumes "process_debts ds s = (ds', s')"
  shows "total_interest_paid s' = total_interest_paid s + interest_charges ds"
  using assms
proof (induction ds arbitrary: s ds' s')
  case Nil
  then show ?case by (simp add: interest_charges_def)
next
  case (Cons d ds)
  obtain d1 s1 where 1: "process_debt d s = (d1, s1)" by force
  obtain ds2 s2 where 2: "process_debts ds s1 = (ds2, s2)" by force
  from Cons.prems 1 2 have "s' = s2" by simp
  with Cons.IH [OF 2] process_debt_interest [OF 1] show ?case
    by (simp add: interest_charges_def)
qed

lemma process_debts_other_key:
  assumes "process_debts ds s = (ds', s')"
    and "\<And>d. d \<in> set ds \<Longrightarrow> 0 < balance d \<Longrightarrow>
           c \<noteq> balance_col (name d) \<and> c \<noteq> payment_col (name d) \<and> c \<noteq> interest_col (name d)"
  shows "map_of (monthly_summary s') c = map_of (monthly_summary s) c"
  using assms
proof (induction ds arbitrary: s ds' s')
  case Nil
  then show ?case by simp
next
  case (Cons d ds)
  obtain d1 s1 where 1: "process_debt d s = (d1, s1)" by force
  obtain ds2 s2 where 2: "process_debts ds s1 = (ds2, s2)" by force
  from Cons.prems(1) 1 2 have s': "s' = s2" by simp
  have "map_of (monthly_summary s1) c = map_of (monthly_summary s) c"
    using 1 Cons.prems(2) by (intro process_debt_other_key) auto
  moreover have "map_of (monthly_summary s2) c = map_of (monthly_summary s1) c"
    using 2 Cons.prems(2) by (intro Cons.IH) auto
  ultimately show ?case by (simp add: s')
qed

lemma process_debts_keeps_key:
  assumes "process_debts ds s = (ds', s')" "map_of (monthly_summary s) c \<noteq> None"
  shows "map_of (monthly_summary s') c \<noteq> None"
  using assms
proof (induction ds arbitrary: s ds' s')
  case Nil
  then show ?case by simp
next
  case (Cons d ds)
  obtain d1 s1 where 1: "process_debt d s = (d1, s1)" by force
  obtain ds2 s2 where 2: "process_debts ds s1 = (ds2, s2)" by force
  from Cons.prems(1) 1 2 have s': "s' = s2" by simp
  from process_debt_keeps_key [OF 1 Cons.prems(2)] Cons.IH [OF 2] show ?case
    by (simp add: s')
qed

lemma process_debts_open_present:
  assumes "process_debts ds s = (ds', s')" "d \<in> set ds" "0 < balance d"
  shows "map_of (monthly_summary s') (balance_col (name d)) \<noteq> None \<and>
         map_of (monthly_summary s') (payment_col (name d)) \<noteq> None \<and>
         map_of (monthly_summary s') (interest_col (name d)) \<noteq> None"
  using assms(1,2)
proof (induction ds arbitrary: s ds' s')
  case Nil
  then show ?case by simp
next
  case (Cons x ds)
  obtain d1 s1 where 1: "process_debt x s = (d1, s1)" by force
  obtain ds2 s2 where 2: "process_debts ds s1 = (ds2, s2)" by force
  from Cons.prems(1) 1 2 have s': "s' = s2" by simp
  show ?case
  proof (cases "d = x")
    case True
    with process_debt_open [OF 1] assms(3)
    have "map_of (monthly_summary s1) (balance_col (name d)) \<noteq> None"
      "map_of (monthly_summary s1) (payment_col (name d)) \<noteq> None"
      "map_of (monthly_summary s1) (interest_col (name d)) \<noteq> None"
      by simp_all
    then show ?thesis
      using process_debts_keeps_key [OF 2] by (simp add: s')
  next
    case False
    with Cons.prems(2) have "d \<in> set ds" by simp
    from Cons.IH [OF 2 this] show ?thesis by (simp add: s')
  qed
qed

section \<open>One month\<close>

lemma loop_body_month [simp]: "month (loop_body e st) = Suc (month st)"
  by (simp add: loop_body_def Let_def split: prod.splits)

lemma loop_body_results_length [simp]:
  "length (results (loop_body e st)) = Suc (length (results st))"
  by (simp add: loop_body_def Let_def split: prod.splits)

lemma loop_body_results:
  "results (loop_body e st) = results st @ [month_record e st]"
  by (simp add: month_record_def loop_body_def Let_def split: prod.splits)

lemma loop_body_cases:
  obtains ds' s' where
    "process_debts (debts st)
       \<lparr>extra_remaining = e, total_interest_paid = interest_paid st,
        monthly_summary = [(''Month'', of_nat (month st)), (''Total Payment'', 0),
                 (''Total Interest Paid'', interest_paid st)]\<rparr> = (ds', s')"
    "debts (loop_body e st) = ds'"
    "interest_paid (loop_body e st) = total_interest_paid s'"
    "month_record e st =
       AList.update ''Total Interest Paid'' (total_interest_paid s')
         (AList.update ''Total Payment'' (total_payment ds' (monthly_summary s'))
            (monthly_summary s'))"
proof -
  obtain ds' s' where p: "process_debts (debts st)
       \<lparr>extra_remaining = e, total_interest_paid = interest_paid st,
        monthly_summary = [(''Month'', of_nat (month st)), (''Total Payment'', 0),
                 (''Total Interest Paid'', interest_paid st)]\<rparr> = (ds', s')"
    by force
  show thesis
    by (rule that [OF p]) (simp_all add: month_record_def loop_body_def p Let_def)
qed

lemma loop_body_interest_paid:
  "interest_paid (loop_body e st) = interest_paid st + interest_charges (debts st)"
proof -
  obtain ds' s' where p: "process_debts (debts st)
       \<lparr>extra_remaining = e, total_interest_paid = interest_paid st,
        monthly_summary = [(''Month'', of_nat (month st)), (''Total Payment'', 0),
                 (''Total Interest Paid'', interest_paid st)]\<rparr> = (ds', s')"
    and "interest_paid (loop_body e st) = total_interest_paid s'"
    by (rule loop_body_cases)
  with process_debts_interest [OF p] show ?thesis by simp
qed

lemma loop_body_debts:
  "length (debts (loop_body e st)) = length (debts st)"
  "map name (debts (loop_body e st)) = map name (debts st)"
  "map interest_rate (debts (loop_body e st)) = map interest_rate (debts st)"
  "map min_payment (debts (loop_body e st)) = map min_payment (debts st)"
proof -
  obtain ds' s' where p: "process_debts (debts st)
       \<lparr>extra_remaining = e, total_interest_paid = interest_paid st,
        monthly_summary = [(''Month'', of_nat (month st)), (''Total Payment'', 0),
                 (''Total Interest Paid'', interest_paid st)]\<rparr> = (ds', s')"
    and d: "debts (loop_body e st) = ds'"
    by (rule loop_body_cases)
  from process_debts_fields [OF p]
  show "length (debts (loop_body e st)) = length (debts st)"
    "map name (debts (loop_body e st)) = map name (debts st)"
    "map interest_rate (debts (loop_body e st)) = map interest_rate (debts st)"
    "map min_payment (debts (loop_body e st)) = map min_payment (debts st)"
    by (simp_all add: d)
qed

text \<open>The record of a month: the fixed columns.\<close>

lemma month_record_fixed:
  "map_of (month_record e st) ''Month'' = Some (of_nat (month st))"
  "map_of (month_record e st) ''Total Interest Paid''
     = Some (interest_paid st + interest_charges (debts st))"
  "map_of (month_record e st) ''Total Payment'' \<noteq> None"
proof -
  let ?s0 = "\<lparr>extra_remaining = e, total_interest_paid = interest_paid st,
              monthly_summary = [(''Month'', of_nat (month st)), (''Total Payment'', 0),
                 (''Total Interest Paid'', interest_paid st)]\<rparr>"
  obtain ds' s' where p: "process_debts (debts st) ?s0 = (ds', s')"
    and r: "month_record e st =
       AList.update ''Total Interest Paid'' (total_interest_paid s')
         (AList.update ''Total Payment'' (total_payment ds' (monthly_summary s'))
            (monthly_summary s'))"
    by (rule loop_body_cases)
  have "map_of (monthly_summary s') ''Month'' = map_of (monthly_summary ?s0) ''Month''"
    by (rule process_debts_other_key [OF p]) simp
  then show "map_of (month_record e st) ''Month'' = Some (of_nat (month st))"
    by (simp add: r update_conv')
  from process_debts_interest [OF p]
  show "map_of (month_record e st) ''Total Interest Paid''
     = Some (interest_paid st + interest_charges (debts st))"
    by (simp add: r update_conv')
  show "map_of (month_record e st) ''Total Payment'' \<noteq> None"
    by (simp add: r update_conv')
qed

text \<open>The record of a month: the columns of the debts.\<close>

lemma month_record_open:
  assumes "d \<in> set (debts st)" "0 < balance d"
  shows "map_of (month_record e st) (balance_col (name d)) \<noteq> None \<and>
         map_of (month_record e st) (payment_col (name d)) \<noteq> None \<and>
         map_of (month_record e st) (interest_col (name d)) \<noteq> None"
proof -
  let ?s0 = "\<lparr>extra_remaining = e, total_interest_paid = interest_paid st,
              monthly_summary = [(''Month'', of_nat (month st)), (''Total Payment'', 0),
                 (''Total Interest Paid'', interest_paid st)]\<rparr>"
  obtain ds' s' where p: "process_debts (debts st) ?s0 = (ds', s')"
    and r: "month_record e st =
       AList.update ''Total Interest Paid'' (total_interest_paid s')
         (AList.update ''Total Payment'' (total_payment ds' (monthly_summary s'))
            (monthly_summary s'))"
    by (rule loop_body_cases)
  from process_debts_open_present [OF p assms] show ?thesis
    by (simp add: r update_conv')
qed

lemma month_record_closed:
  assumes "\<And>d. d \<in> set (debts st) \<Longrightarrow> name d = n \<Longrightarrow> balance d \<le> 0"
  shows "map_of (month_record e st) (balance_col n) = None \<and>
         map_of (month_record e st) (payment_col n) = None \<and>
         map_of (month_record e st) (interest_col n) = None"
proof -
  let ?s0 = "\<lparr>extra_remaining = e, total_interest_paid = interest_paid st,
              monthly_summary = [(''Month'', of_nat (month st)), (''Total Payment'', 0),
                 (''Total Interest Paid'', interest_paid st)]\<rparr>"
  obtain ds' s' where p: "process_debts (debts st) ?s0 = (ds', s')"
    and r: "month_record e st =
       AList.update ''Total Interest Paid'' (total_interest_paid s')
         (AList.update ''Total Payment'' (total_payment ds' (monthly_summary s'))
            (monthly_summary s'))"
    by (rule loop_body_cases)
  have "map_of (monthly_summary s') c = map_of (monthly_summary ?s0) c"
    if "c = balance_col n \<or> c = payment_col n \<or> c = interest_col n" for c
  proof (rule process_debts_other_key [OF p])
    fix d assume "d \<in> set (debts st)" "0 < balance d"
    with assms have "name d \<noteq> n" by force
    with that show "c \<noteq> balance_col (name d) \<and> c \<noteq> payment_col (name d) \<and>
        c \<noteq> interest_col (name d)"
      by auto
  qed
  then show ?thesis
    by (simp add: r update_conv')
qed

section \<open>The loop\<close>

lemma payoff_loop_funpow:
  "\<exists>n. payoff_loop e st = (loop_body e ^^ n) st \<and>
       \<not> loop_cond ((loop_body e ^^ n) st) \<and>
       (\<forall>k<n. loop_cond ((loop_body e ^^ k) st))"
proof (induction e st rule: payoff_loop.induct)
  case (1 e st)
  show ?case
  proof (cases "loop_cond st")
    case False
    then have "payoff_loop e st = (loop_body e ^^ 0) st \<and>
       \<not> loop_cond ((loop_body e ^^ 0) st) \<and> (\<forall>k<0. loop_cond ((loop_body e ^^ k) st))"
      by (simp add: payoff_loop.simps [of e st])
    then show ?thesis by blast
  next
    case True
    from "1.IH" [OF True] obtain n where
      n: "payoff_loop e (loop_body e st) = (loop_body e ^^ n) (loop_body e st)"
         "\<not> loop_cond ((loop_body e ^^ n) (loop_body e st))"
         "\<forall>k<n. loop_cond ((loop_body e ^^ k) (loop_body e st))"
      by blast
    have "payoff_loop e st = payoff_loop e (loop_body e st)"
      using True by (simp add: payoff_loop.simps [of e st])
    then have "payoff_loop e st = (loop_body e ^^ Suc n) st"
      using n(1) by (simp add: funpow_swap1)
    moreover have "\<not> loop_cond ((loop_body e ^^ Suc n) st)"
      using n(2) by (simp add: funpow_swap1)
    moreover have "\<forall>k<Suc n. loop_cond ((loop_body e ^^ k) st)"
    proof (intro allI impI)
      fix k assume "k < Suc n"
      show "loop_cond ((loop_body e ^^ k) st)"
      proof (cases k)
        case 0
        with True show ?thesis by simp
      next
        case (Suc j)
        with \<open>k < Suc n\<close> n(3) show ?thesis by (simp add: funpow_swap1)
      qed
    qed
    ultimately show ?thesis by blast
  qed
qed

lemma funpow_month [simp]: "month ((loop_body e ^^ k) st) = month st + k"
  by (induction k) simp_all

lemma funpow_results_length [simp]:
  "length (results ((loop_body e ^^ k) st)) = length (results st) + k"
  by (induction k) simp_all

lemma funpow_results_Suc:
  "results ((loop_body e ^^ Suc k) st)
   = results ((loop_body e ^^ k) st) @ [month_record e ((loop_body e ^^ k) st)]"
  by (simp add: loop_body_results)

lemma funpow_results_nth:
  assumes "j < k"
  shows "results ((loop_body e ^^ k) st) ! (length (results st) + j)
         = month_record e ((loop_body e ^^ j) st)"
  using assms
proof (induction k)
  case 0
  then show ?case by simp
next
  case (Suc k)
  show ?case
  proof (cases "j = k")
    case True
    then show ?thesis
      unfolding funpow_results_Suc by (simp add: nth_append)
  next
    case False
    with Suc.prems have "j < k" by simp
    from Suc.IH [OF this] \<open>j < k\<close> show ?thesis
      unfolding funpow_results_Suc by (simp add: nth_append)
  qed
qed

lemma funpow_interest_paid:
  "interest_paid ((loop_body e ^^ k) st)
   = interest_paid st + (\<Sum>j<k. interest_charges (debts ((loop_body e ^^ j) st)))"
  by (induction k) (simp_all add: loop_body_interest_paid)

lemma loop_month_bound:
  assumes "\<forall>k<n. loop_cond ((loop_body e ^^ k) st)"
  shows "month st + n \<le> Suc MAX_PAYOFF_MONTHS \<or> n = 0"
proof (cases n)
  case 0
  then show ?thesis by simp
next
  case (Suc m)
  with assms have "loop_cond ((loop_body e ^^ m) st)" by simp
  then have "month st + m \<le> MAX_PAYOFF_MONTHS" by (simp add: loop_cond_def)
  with Suc show ?thesis by simp
qed

section \<open>The whole simulation\<close>

lemma after_months_0 [simp]:
  "after_months method e ds 0 = initial_state (order_debts method ds)"
  by (simp add: after_months_def)

lemma after_months_Suc:
  "after_months method e ds (Suc k) = loop_body e (after_months method e ds k)"
  by (simp add: after_months_def)

lemma after_months_month [simp]: "month (after_months method e ds k) = Suc k"
  by (simp add: after_months_def initial_state_def)

lemma after_months_results_length [simp]:
  "length (results (after_months method e ds k)) = k"
  by (simp add: after_months_def initial_state_def)

lemma after_months_results_nth:
  "j < k \<Longrightarrow> results (after_months method e ds k) ! j = month_record e (after_months method e ds j)"
  using funpow_results_nth [where j = j and k = k and e = e and st = "initial_state (order_debts method ds)"]
  by (simp add: after_months_def initial_state_def)

lemma after_months_results:
  "results (after_months method e ds k)
   = map (\<lambda>j. month_record e (after_months method e ds j)) [0..<k]"
  by (rule nth_equalityI) (simp_all add: after_months_results_nth)

lemma after_months_interest_paid:
  "interest_paid (after_months method e ds k)
   = (\<Sum>j<k. interest_charges (debts (after_months method e ds j)))"
  using funpow_interest_paid [where e = e and k = k and st = "initial_state (order_debts method ds)"]
  by (simp add: after_months_def initial_state_def)

lemma after_months_fields:
  "length (debts (after_months method e ds k)) = length ds"
  "map name (debts (after_months method e ds k)) = map name (order_debts method ds)"
  "map interest_rate (debts (after_months method e ds k)) = map interest_rate (order_debts method ds)"
  "map min_payment (debts (after_months method e ds k)) = map min_payment (order_debts method ds)"
proof -
  have "mset (order_debts method ds) = mset ds"
    by (simp add: order_debts_def sorted_by_def sorted_by_reverse_def)
  then have len: "length (order_debts method ds) = length ds"
    by (rule mset_eq_length)
  show "length (debts (after_months method e ds k)) = length ds"
    by (induction k) (simp_all add: after_months_Suc loop_body_debts initial_state_def len)
  show "map name (debts (after_months method e ds k)) = map name (order_debts method ds)"
    by (induction k) (simp_all add: after_months_Suc loop_body_debts initial_state_def)
  show "map interest_rate (debts (after_months method e ds k))
        = map interest_rate (order_debts method ds)"
    by (induction k) (simp_all add: after_months_Suc loop_body_debts initial_state_def)
  show "map min_payment (debts (after_months method e ds k))
        = map min_payment (order_debts method ds)"
    by (induction k) (simp_all add: after_months_Suc loop_body_debts initial_state_def)
qed

lemma set_order_debts [simp]: "set (order_debts method ds) = set ds"
  by (simp add: order_debts_def sorted_by_def sorted_by_reverse_def)

lemma simulate_after_months:
  obtains n where
    "simulate method e ds = after_months method e ds n"
    "n \<le> MAX_PAYOFF_MONTHS"
    "\<not> loop_cond (after_months method e ds n)"
    "\<forall>k<n. loop_cond (after_months method e ds k)"
proof -
  let ?st = "initial_state (order_debts method ds)"
  obtain n where n: "payoff_loop e ?st = (loop_body e ^^ n) ?st"
    "\<not> loop_cond ((loop_body e ^^ n) ?st)"
    "\<forall>k<n. loop_cond ((loop_body e ^^ k) ?st)"
    using payoff_loop_funpow [of e ?st] by blast
  from loop_month_bound [OF n(3)] have "n \<le> MAX_PAYOFF_MONTHS"
    by (auto simp: initial_state_def)
  with n show thesis
    by (intro that [of n]) (simp_all add: simulate_def after_months_def)
qed

lemma calculate_debt_payoff_valid:
  "validate ds e = None \<Longrightarrow>
   calculate_debt_payoff ds method e = Inr (results (simulate method e ds))"
  by (simp add: calculate_debt_payoff_def)

text \<open>
  Claim C6. Whenever an open debt is processed, the interest recorded for it is
  \<open>balance * (interest_rate / 100) / 12\<close> on the balance before the payment, and the
  amount taken off the balance is the recorded payment minus that interest. The
  \<^verbatim>\<open>Total Interest Paid\<close> of the record of month \<open>k + 1\<close> is the sum, over the
  months up to and including that month, of the interest charged on the debts open in
  that month.
\<close>

theorem conservation:
  assumes "calculate_debt_payoff ds method e = Inr ledger"
  shows "(\<forall>d s d' s'. process_debt d s = (d', s') \<and> 0 < balance d \<longrightarrow>
            (\<exists>payment interest.
               map_of (monthly_summary s') (payment_col (name d)) = Some payment \<and>
               map_of (monthly_summary s') (interest_col (name d)) = Some interest \<and>
               interest = balance d * (interest_rate d / 100) / 12 \<and>
               balance d - balance d' = payment - interest \<and>
               total_interest_paid s' = total_interest_paid s + interest)) \<and>
         (\<forall>k<length ledger.
            map_of (ledger ! k) ''Total Interest Paid''
              = Some (\<Sum>j\<le>k. interest_charges (debts (after_months method e ds j))))"
proof (intro conjI allI impI)
  fix d s d' s'
  assume a: "process_debt d s = (d', s') \<and> 0 < balance d"
  then have p: "process_debt d s = (d', s')" and b: "0 < balance d" by simp_all
  have "map_of (monthly_summary s') (payment_col (name d))
          = Some (balance d - balance d' + monthly_interest d) \<and>
        map_of (monthly_summary s') (interest_col (name d)) = Some (monthly_interest d) \<and>
        monthly_interest d = balance d * (interest_rate d / 100) / 12 \<and>
        balance d - balance d' = (balance d - balance d' + monthly_interest d) - monthly_interest d \<and>
        total_interest_paid s' = total_interest_paid s + monthly_interest d"
    using process_debt_open [OF p b] process_debt_interest [OF p] b
    by (simp add: monthly_interest_def)
  then show "\<exists>payment interest.
               map_of (monthly_summary s') (payment_col (name d)) = Some payment \<and>
               map_of (monthly_summary s') (interest_col (name d)) = Some interest \<and>
               interest = balance d * (interest_rate d / 100) / 12 \<and>
               balance d - balance d' = payment - interest \<and>
               total_interest_paid s' = total_interest_paid s + interest"
    by blast
next
  fix k assume k: "k < length ledger"
  obtain n where n: "simulate method e ds = after_months method e ds n"
    by (rule simulate_after_months)
  from assms have "ledger = results (simulate method e ds)"
    by (simp add: calculate_debt_payoff_def split: option.splits)
  then have l: "ledger = results (after_months method e ds n)" by (simp add: n)
  with k have "k < n" by simp
  then have "ledger ! k = month_record e (after_months method e ds k)"
    by (simp add: l after_months_results_nth)
  then show "map_of (ledger ! k) ''Total Interest Paid''
              = Some (\<Sum>j\<le>k. interest_charges (debts (after_months method e ds j)))"
    by (simp add: month_record_fixed after_months_interest_paid lessThan_Suc_atMost [symmetric])
qed

theorem conservation_witness:
  "calculate_debt_payoff
     [\<lparr>name = ''Loan'', balance = 1000, interest_rate = 12, min_payment = 600\<rparr>] ''snowball'' 0
   = Inr [[(''Month'', 1), (''Total Payment'', 600), (''Total Interest Paid'', 10),
           (''Debt Loan Balance'', 410), (''Debt Loan Payment'', 600),
           (''Debt Loan Interest'', 10)],
          [(''Month'', 2), (''Total Payment'', 4141 / 10), (''Total Interest Paid'', 141 / 10),
           (''Debt Loan Balance'', 0), (''Debt Loan Payment'', 4141 / 10),
           (''Debt Loan Interest'', 41 / 10)]] \<and>
   (\<Sum>j\<le>1. interest_charges (debts (after_months ''snowball'' 0
       [\<lparr>name = ''Loan'', balance = 1000, interest_rate = 12, min_payment = 600\<rparr>] j)))
   = 141 / 10"
proof -
  let ?ds = "[\<lparr>name = ''Loan'', balance = 1000, interest_rate = 12, min_payment = 600\<rparr>]"
  let ?L = "[[(''Month'', 1), (''Total Payment'', 600), (''Total Interest Paid'', 10),
           (''Debt Loan Balance'', 410), (''Debt Loan Payment'', 600),
           (''Debt Loan Interest'', 10)],
          [(''Month'', 2), (''Total Payment'', 4141 / 10), (''Total Interest Paid'', 141 / 10),
           (''Debt Loan Balance'', 0), (''Debt Loan Payment'', 4141 / 10),
           (''Debt Loan Interest'', 41 / 10 :: rat)]]"
  have c: "calculate_debt_payoff ?ds ''snowball'' 0 = Inr ?L"
    by code_simp
  from conservation [OF c] have "\<forall>k<length ?L. map_of (?L ! k) ''Total Interest Paid''
      = Some (\<Sum>j\<le>k. interest_charges (debts (after_months ''snowball'' 0 ?ds j)))"
    by (rule conjunct2)
  from this [rule_format, of 1] have "(\<Sum>j\<le>1. interest_charges (debts (after_months ''snowball'' 0 ?ds j))) = 141 / 10"
    by simp
  with c show ?thesis by simp
qed

section \<open>Cumulative interest\<close>

lemma column_values_map:
  "(\<And>x. x \<in> set xs \<Longrightarrow> map_of (g x) c = Some (h x)) \<Longrightarrow>
   column_values c (map g xs) = map h xs"
  by (induction xs) (simp_all add: column_values_def map_filter_simps)

lemma interest_charges_nonneg:
  assumes "\<And>d. d \<in> set ds \<Longrightarrow> 0 \<le> interest_rate d"
  shows "0 \<le> interest_charges ds"
  unfolding interest_charges_def
  by (rule sum_list_nonneg) (auto simp: monthly_interest_def assms)

lemma after_months_rates_nonneg:
  assumes "validate ds e = None" "d \<in> set (debts (after_months method e' ds k))"
  shows "0 \<le> interest_rate d"
proof -
  from assms(2) have "interest_rate d \<in> set (map interest_rate (debts (after_months method e' ds k)))"
    by simp
  then have "interest_rate d \<in> interest_rate ` set ds"
    by (simp add: after_months_fields)
  with assms(1) show ?thesis
    by (auto simp: validate_None)
qed

text \<open>
  Claim C7. For every validated portfolio every record of the ledger has a
  \<^verbatim>\<open>Total Interest Paid\<close> value, and these values, read down the ledger, never
  decrease.
\<close>

theorem interest_paid_monotone:
  assumes "validate ds e = None" "calculate_debt_payoff ds method e = Inr ledger"
  shows "sorted (column_values ''Total Interest Paid'' ledger) \<and>
         length (column_values ''Total Interest Paid'' ledger) = length ledger"
proof -
  let ?S = "after_months method e ds"
  let ?h = "\<lambda>k. \<Sum>j\<le>k. interest_charges (debts (?S j))"
  obtain n where n: "simulate method e ds = ?S n"
    by (rule simulate_after_months)
  from assms(2) have "ledger = results (simulate method e ds)"
    by (simp add: calculate_debt_payoff_def split: option.splits)
  then have l: "ledger = map (\<lambda>j. month_record e (?S j)) [0..<n]"
    by (simp add: n after_months_results)
  have cv: "column_values ''Total Interest Paid'' ledger = map ?h [0..<n]"
    unfolding l
    by (rule column_values_map)
      (simp add: month_record_fixed after_months_interest_paid lessThan_Suc_atMost [symmetric])
  have nonneg: "0 \<le> interest_charges (debts (?S j))" for j
    by (rule interest_charges_nonneg) (rule after_months_rates_nonneg [OF assms(1)])
  have mono: "?h i \<le> ?h j" if "i \<le> j" for i j
    using that by (intro sum_mono2) (auto simp: nonneg)
  have "sorted (map ?h [0..<n])"
    by (simp add: sorted_iff_nth_mono mono)
  moreover have "length ledger = n"
    by (simp add: l)
  ultimately show ?thesis
    unfolding cv by simp
qed

theorem interest_paid_monotone_witness:
  "validate [\<lparr>name = ''Loan'', balance = 1000, interest_rate = 12, min_payment = 600\<rparr>] 0 = None \<and>
   calculate_debt_payoff
     [\<lparr>name = ''Loan'', balance = 1000, interest_rate = 12, min_payment = 600\<rparr>] ''avalanche'' 0
   = Inr [[(''Month'', 1), (''Total Payment'', 600), (''Total Interest Paid'', 10),
           (''Debt Loan Balance'', 410), (''Debt Loan Payment'', 600),
           (''Debt Loan Interest'', 10)],
          [(''Month'', 2), (''Total Payment'', 4141 / 10), (''Total Interest Paid'', 141 / 10),
           (''Debt Loan Balance'', 0), (''Debt Loan Payment'', 4141 / 10),
           (''Debt Loan Interest'', 41 / 10)]] \<and>
   sorted (column_values ''Total Interest Paid''
          [[(''Month'', 1), (''Total Payment'', 600), (''Total Interest Paid'', 10),
           (''Debt Loan Balance'', 410), (''Debt Loan Payment'', 600),
           (''Debt Loan Interest'', 10)],
          [(''Month'', 2), (''Total Payment'', 4141 / 10), (''Total Interest Paid'', 141 / 10 :: rat),
           (''Debt Loan Balance'', 0), (''Debt Loan Payment'', 4141 / 10),
           (''Debt Loan Interest'', 41 / 10)]])"
proof -
  let ?ds = "[\<lparr>name = ''Loan'', balance = 1000, interest_rate = 12, min_payment = 600\<rparr>]"
  have v: "validate ?ds 0 = None"
    by (simp add: validate_def check_debt_def monthly_interest_def)
  have c: "calculate_debt_payoff ?ds ''avalanche'' 0
   = Inr [[(''Month'', 1), (''Total Payment'', 600), (''Total Interest Paid'', 10),
           (''Debt Loan Balance'', 410), (''Debt Loan Payment'', 600),
           (''Debt Loan Interest'', 10)],
          [(''Month'', 2), (''Total Payment'', 4141 / 10), (''Total Interest Paid'', 141 / 10),
           (''Debt Loan Balance'', 0), (''Debt Loan Payment'', 4141 / 10),
           (''Debt Loan Interest'', 41 / 10)]]"
    by code_simp
  from interest_paid_monotone [OF v c] v c show ?thesis by blast
qed

section \<open>Unrecognised strategy names\<close>

text \<open>
  Claim C10. A method string other than \<^verbatim>\<open>snowball\<close> and \<^verbatim>\<open>avalanche\<close> raises no
  error of its own: the debts stay in their input order, validation is the one of the
  recognised strategies (the same inputs are rejected, with the same error), and a
  validated input yields the ledger of the full simulation run on the input order.
\<close>

theorem unknown_method_runs:
  assumes "method \<noteq> ''snowball''" "method \<noteq> ''avalanche''"
  shows "order_debts method ds = ds \<and>
         calculate_debt_payoff ds method e =
           (case validate ds e of
              Some err \<Rightarrow> Inl err
            | None \<Rightarrow> Inr (results (payoff_loop e (initial_state ds)))) \<and>
         (\<forall>err. calculate_debt_payoff ds method e = Inl err \<longleftrightarrow>
                calculate_debt_payoff ds ''snowball'' e = Inl err) \<and>
         (\<forall>err. calculate_debt_payoff ds method e = Inl err \<longleftrightarrow>
                calculate_debt_payoff ds ''avalanche'' e = Inl err)"
  using assms
  by (auto simp: calculate_debt_payoff_def simulate_def order_debts_def split: option.splits)

theorem unknown_method_runs_witness:
  "''alphabetical'' \<noteq> ''snowball'' \<and> ''alphabetical'' \<noteq> ''avalanche'' \<and>
   calculate_debt_payoff
     [\<lparr>name = ''B'', balance = 300, interest_rate = 0, min_payment = 100\<rparr>,
      \<lparr>name = ''A'', balance = 100, interest_rate = 12, min_payment = 100\<rparr>] ''alphabetical'' 0
   = Inr (results (payoff_loop 0 (initial_state
     [\<lparr>name = ''B'', balance = 300, interest_rate = 0, min_payment = 100\<rparr>,
      \<lparr>name = ''A'', balance = 100, interest_rate = 12, min_payment = 100\<rparr>])))"
proof -
  have m: "''alphabetical'' \<noteq> ''snowball''" "''alphabetical'' \<noteq> ''avalanche''"
    by simp_all
  have v: "validate
     [\<lparr>name = ''B'', balance = 300, interest_rate = 0, min_payment = 100\<rparr>,
      \<lparr>name = ''A'', balance = 100, interest_rate = 12, min_payment = 100\<rparr>] 0 = None"
    by (simp add: validate_def check_debt_def monthly_interest_def)
  from unknown_method_runs [OF m, of
     "[\<lparr>name = ''B'', balance = 300, interest_rate = 0, min_payment = 100\<rparr>,
      \<lparr>name = ''A'', balance = 100, interest_rate = 12, min_payment = 100\<rparr>]" 0] m v
  show ?thesis by simp
qed

section \<open>Scenario A\<close>

lemma scenario_step:
  assumes "0 < b"
  shows "loop_body 0 \<lparr>debts = [\<lparr>name = n, balance = b, interest_rate = 0, min_payment = 100\<rparr>],
            interest_paid = 0, results = rs, month = m\<rparr> =
   \<lparr>debts = [\<lparr>name = n, balance = (if b \<le> 100 then 0 else b - 100), interest_rate = 0,
              min_payment = 100\<rparr>],
    interest_paid = 0,
    results = rs @ [[(''Month'', of_nat m), (''Total Payment'', if b \<le> 100 then b else 100),
       (''Total Interest Paid'', 0),
       (balance_col n, if b \<le> 100 then 0 else b - 100),
       (payment_col n, if b \<le> 100 then b else 100), (interest_col n, 0)]],
    month = Suc m\<rparr>"
  using assms by (simp add: loop_body_def process_debt_def total_payment_def)

lemma scenario_cond:
  "loop_cond \<lparr>debts = [\<lparr>name = n, balance = b, interest_rate = 0, min_payment = 100\<rparr>],
       interest_paid = 0, results = rs, month = m\<rparr> \<longleftrightarrow> 0 < b \<and> m \<le> 1200"
  by (simp add: loop_cond_def MAX_PAYOFF_MONTHS_def)

lemma order_debts_single: "order_debts method [d] = [d]"
  by (simp add: order_debts_def sorted_by_def sorted_by_reverse_def)

text \<open>
  Claim C8. One debt with balance 1200, rate 0, minimum payment 100 and no extra payment
  (whatever its name and the strategy): the ledger has exactly 12 records, the balance in
  the last record is 0 and the final \<^verbatim>\<open>Total Interest Paid\<close> is 0.
\<close>

theorem scenario_A:
  "\<exists>ledger. calculate_debt_payoff
       [\<lparr>name = n, balance = 1200, interest_rate = 0, min_payment = 100\<rparr>] method 0 = Inr ledger \<and>
     length ledger = 12 \<and>
     map_of (last ledger) (balance_col n) = Some 0 \<and>
     map_of (last ledger) ''Total Interest Paid'' = Some 0"
proof -
  have "validate [\<lparr>name = n, balance = 1200, interest_rate = 0, min_payment = 100\<rparr>] 0 = None"
    by (simp add: validate_def check_debt_def monthly_interest_def)
  then show ?thesis
    by (simp add: calculate_debt_payoff_def simulate_def order_debts_single initial_state_def
        payoff_loop.simps scenario_step scenario_cond)
qed

section \<open>The columns of a debt with a name of its own\<close>

lemma process_debts_cols:
  assumes "process_debts ds s = (ds', s')" "distinct (map name ds)"
    "j < length ds" "0 < balance (ds ! j)"
  shows "map_of (monthly_summary s') (balance_col (name (ds ! j))) = Some (balance (ds' ! j)) \<and>
         map_of (monthly_summary s') (interest_col (name (ds ! j)))
           = Some (monthly_interest (ds ! j)) \<and>
         map_of (monthly_summary s') (payment_col (name (ds ! j)))
           = Some (balance (ds ! j) - balance (ds' ! j) + monthly_interest (ds ! j))"
  using assms
proof (induction ds arbitrary: s ds' s' j)
  case Nil
  then show ?case by simp
next
  case (Cons x ds)
  obtain d1 s1 where 1: "process_debt x s = (d1, s1)" by force
  obtain ds2 s2 where 2: "process_debts ds s1 = (ds2, s2)" by force
  from Cons.prems(1) 1 2 have eq: "ds' = d1 # ds2" "s' = s2" by simp_all
  show ?case
  proof (cases j)
    case 0
    with Cons.prems(4) have opn: "0 < balance x" by simp
    have keep: "map_of (monthly_summary s2) c = map_of (monthly_summary s1) c"
      if "c = balance_col (name x) \<or> c = payment_col (name x) \<or> c = interest_col (name x)" for c
    proof (rule process_debts_other_key [OF 2])
      fix d assume "d \<in> set ds"
      then have "name d \<in> name ` set ds" by (rule imageI)
      with Cons.prems(2) have "name d \<noteq> name x" by auto
      with that show "c \<noteq> balance_col (name d) \<and> c \<noteq> payment_col (name d) \<and>
          c \<noteq> interest_col (name d)"
        by auto
    qed
    from process_debt_open [OF 1 opn] show ?thesis
      by (simp add: 0 eq keep)
  next
    case (Suc i)
    with Cons.prems have "distinct (map name ds)" "i < length ds" "0 < balance (ds ! i)"
      by simp_all
    from Cons.IH [OF 2 this] show ?thesis
      by (simp add: Suc eq)
  qed
qed

lemma month_record_cols:
  assumes "distinct (map name (debts st))" "j < length (debts st)" "0 < balance (debts st ! j)"
  shows "map_of (month_record e st) (balance_col (name (debts st ! j)))
           = Some (balance (debts (loop_body e st) ! j)) \<and>
         map_of (month_record e st) (interest_col (name (debts st ! j)))
           = Some (monthly_interest (debts st ! j)) \<and>
         map_of (month_record e st) (payment_col (name (debts st ! j)))
           = Some (balance (debts st ! j) - balance (debts (loop_body e st) ! j)
                   + monthly_interest (debts st ! j))"
proof -
  obtain ds' s' where p: "process_debts (debts st)
       \<lparr>extra_remaining = e, total_interest_paid = interest_paid st,
        monthly_summary = [(''Month'', of_nat (month st)), (''Total Payment'', 0),
                 (''Total Interest Paid'', interest_paid st)]\<rparr> = (ds', s')"
    and d: "debts (loop_body e st) = ds'"
    and r: "month_record e st =
       AList.update ''Total Interest Paid'' (total_interest_paid s')
         (AList.update ''Total Payment'' (total_payment ds' (monthly_summary s'))
            (monthly_summary s'))"
    by (rule loop_body_cases)
  from process_debts_cols [OF p assms] show ?thesis
    by (simp add: r d update_conv')
qed

lemma distinct_names_order_debts:
  "distinct (map name (order_debts method ds)) \<longleftrightarrow> distinct (map name ds)"
proof -
  have "mset (order_debts method ds) = mset ds"
    by (simp add: order_debts_def sorted_by_def sorted_by_reverse_def)
  then have "mset (map name (order_debts method ds)) = mset (map name ds)"
    by simp
  then show ?thesis
    by (rule mset_eq_imp_distinct_iff)
qed

lemma ledger_nth:
  assumes "calculate_debt_payoff ds method e = Inr ledger" "k < length ledger"
  shows "ledger ! k = month_record e (after_months method e ds k)"
proof -
  obtain n where n: "simulate method e ds = after_months method e ds n"
    by (rule simulate_after_months)
  from assms(1) have "ledger = results (simulate method e ds)"
    by (simp add: calculate_debt_payoff_def split: option.splits)
  then have l: "ledger = results (after_months method e ds n)" by (simp add: n)
  with assms(2) have "k < n" by simp
  then show ?thesis
    by (simp add: l after_months_results_nth)
qed

text \<open>
  Claim C5, as the code has it. Every record of the ledger holds the month index, the
  month's total payment and the cumulative interest; for every debt that is open
  (\<^verbatim>\<open>balance > 0\<close>) when the month starts it holds the balance, payment and interest
  columns of that debt's name, and when the names in the portfolio are distinct these are
  the debt's balance after the payment, the amount paid and the interest charged. A name
  none of whose debts is open at the start of the month has no column in the record: a
  debt already paid off is skipped and contributes nothing, not the value zero.
\<close>

theorem record_columns:
  assumes "calculate_debt_payoff ds method e = Inr ledger" "k < length ledger"
  shows "map_of (ledger ! k) ''Month'' = Some (of_nat (k + 1)) \<and>
         map_of (ledger ! k) ''Total Payment'' \<noteq> None \<and>
         map_of (ledger ! k) ''Total Interest Paid'' \<noteq> None \<and>
         (\<forall>d\<in>set (debts (after_months method e ds k)). 0 < balance d \<longrightarrow>
            map_of (ledger ! k) (balance_col (name d)) \<noteq> None \<and>
            map_of (ledger ! k) (payment_col (name d)) \<noteq> None \<and>
            map_of (ledger ! k) (interest_col (name d)) \<noteq> None) \<and>
         (\<forall>n. (\<forall>d\<in>set (debts (after_months method e ds k)). name d = n \<longrightarrow> balance d \<le> 0) \<longrightarrow>
            map_of (ledger ! k) (balance_col n) = None \<and>
            map_of (ledger ! k) (payment_col n) = None \<and>
            map_of (ledger ! k) (interest_col n) = None) \<and>
         (distinct (map name ds) \<longrightarrow>
            (\<forall>j<length ds. 0 < balance (debts (after_months method e ds k) ! j) \<longrightarrow>
               map_of (ledger ! k) (balance_col (name (debts (after_months method e ds k) ! j)))
                 = Some (balance (debts (after_months method e ds (Suc k)) ! j)) \<and>
               map_of (ledger ! k) (interest_col (name (debts (after_months method e ds k) ! j)))
                 = Some (monthly_interest (debts (after_months method e ds k) ! j)) \<and>
               map_of (ledger ! k) (payment_col (name (debts (after_months method e ds k) ! j)))
                 = Some (balance (debts (after_months method e ds k) ! j)
                         - balance (debts (after_months method e ds (Suc k)) ! j)
                         + monthly_interest (debts (after_months method e ds k) ! j))))"
proof -
  let ?S = "after_months method e ds"
  have r: "ledger ! k = month_record e (?S k)"
    using assms by (rule ledger_nth)
  have 1: "map_of (ledger ! k) ''Month'' = Some (of_nat (k + 1))"
    "map_of (ledger ! k) ''Total Payment'' \<noteq> None"
    "map_of (ledger ! k) ''Total Interest Paid'' \<noteq> None"
    by (simp_all add: r month_record_fixed)
  have 2: "\<forall>d\<in>set (debts (?S k)). 0 < balance d \<longrightarrow>
            map_of (ledger ! k) (balance_col (name d)) \<noteq> None \<and>
            map_of (ledger ! k) (payment_col (name d)) \<noteq> None \<and>
            map_of (ledger ! k) (interest_col (name d)) \<noteq> None"
    unfolding r by (intro ballI impI month_record_open)
  have 3: "\<forall>n. (\<forall>d\<in>set (debts (?S k)). name d = n \<longrightarrow> balance d \<le> 0) \<longrightarrow>
            map_of (ledger ! k) (balance_col n) = None \<and>
            map_of (ledger ! k) (payment_col n) = None \<and>
            map_of (ledger ! k) (interest_col n) = None"
    unfolding r by (intro allI impI month_record_closed) blast
  have 4: "distinct (map name ds) \<longrightarrow>
            (\<forall>j<length ds. 0 < balance (debts (?S k) ! j) \<longrightarrow>
               map_of (ledger ! k) (balance_col (name (debts (?S k) ! j)))
                 = Some (balance (debts (?S (Suc k)) ! j)) \<and>
               map_of (ledger ! k) (interest_col (name (debts (?S k) ! j)))
                 = Some (monthly_interest (debts (?S k) ! j)) \<and>
               map_of (ledger ! k) (payment_col (name (debts (?S k) ! j)))
                 = Some (balance (debts (?S k) ! j) - balance (debts (?S (Suc k)) ! j)
                         + monthly_interest (debts (?S k) ! j)))"
    unfolding r after_months_Suc
    by (intro allI impI month_record_cols)
       (simp_all add: after_months_fields distinct_names_order_debts)
  from 1 2 3 4 show ?thesis by blast
qed

theorem record_columns_counterexample:
  "calculate_debt_payoff
     [\<lparr>name = ''A'', balance = 100, interest_rate = 0, min_payment = 100\<rparr>,
      \<lparr>name = ''B'', balance = 300, interest_rate = 0, min_payment = 100\<rparr>] ''snowball'' 0
   = Inr [[(''Month'', 1), (''Total Payment'', 200), (''Total Interest Paid'', 0),
           (''Debt A Balance'', 0), (''Debt A Payment'', 100), (''Debt A Interest'', 0),
           (''Debt B Balance'', 200), (''Debt B Payment'', 100), (''Debt B Interest'', 0)],
          [(''Month'', 2), (''Total Payment'', 100), (''Total Interest Paid'', 0),
           (''Debt B Balance'', 100), (''Debt B Payment'', 100), (''Debt B Interest'', 0)],
          [(''Month'', 3), (''Total Payment'', 100), (''Total Interest Paid'', 0),
           (''Debt B Balance'', 0), (''Debt B Payment'', 100), (''Debt B Interest'', 0)]] \<and>
   map_of [(''Month'', 2), (''Total Payment'', 100), (''Total Interest Paid'', 0),
           (''Debt B Balance'', 100), (''Debt B Payment'', 100), (''Debt B Interest'', 0 :: rat)]
      (balance_col ''A'') = None \<and>
   map_of [(''Month'', 2), (''Total Payment'', 100), (''Total Interest Paid'', 0),
           (''Debt B Balance'', 100), (''Debt B Payment'', 100), (''Debt B Interest'', 0 :: rat)]
      (payment_col ''A'') = None \<and>
   map_of [(''Month'', 2), (''Total Payment'', 100), (''Total Interest Paid'', 0),
           (''Debt B Balance'', 100), (''Debt B Payment'', 100), (''Debt B Interest'', 0 :: rat)]
      (interest_col ''A'') = None"
  by code_simp

theorem record_columns_witness:
  "map_of
     [(''Month'', 2), (''Total Payment'', 100), (''Total Interest Paid'', 0),
      (''Debt B Balance'', 100), (''Debt B Payment'', 100), (''Debt B Interest'', 0 :: rat)]
     ''Month'' = Some 2"
proof -
  let ?ds = "[\<lparr>name = ''A'', balance = 100, interest_rate = 0, min_payment = 100\<rparr>,
      \<lparr>name = ''B'', balance = 300, interest_rate = 0, min_payment = 100\<rparr>]"
  let ?L = "[[(''Month'', 1), (''Total Payment'', 200), (''Total Interest Paid'', 0),
           (''Debt A Balance'', 0), (''Debt A Payment'', 100), (''Debt A Interest'', 0),
           (''Debt B Balance'', 200), (''Debt B Payment'', 100), (''Debt B Interest'', 0)],
          [(''Month'', 2), (''Total Payment'', 100), (''Total Interest Paid'', 0),
           (''Debt B Balance'', 100), (''Debt B Payment'', 100), (''Debt B Interest'', 0)],
          [(''Month'', 3), (''Total Payment'', 100), (''Total Interest Paid'', 0),
           (''Debt B Balance'', 0), (''Debt B Payment'', 100), (''Debt B Interest'', 0 :: rat)]]"
  have c: "calculate_debt_payoff ?ds ''snowball'' 0 = Inr ?L"
    by code_simp
  have k: "1 < length ?L" by simp
  from record_columns [OF c k] have "map_of (?L ! 1) ''Month'' = Some (of_nat (1 + 1))"
    by (rule conjunct1)
  then show ?thesis by simp
qed

section \<open>How one payment changes the pool\<close>

lemma process_debt_extra:
  assumes "process_debt d s = (d', s')" "0 < balance d"
  shows "extra_remaining s' =
     (if balance d + monthly_interest d \<le> min_payment d
      then extra_remaining s - max 0 (balance d - min_payment d)
      else extra_remaining s
           - max 0 ((if 0 < extra_remaining s then extra_remaining s else 0) - monthly_interest d))"
  using assms by (auto simp: process_debt_def Let_def monthly_interest_def split: if_splits)

section \<open>Lists and columns\<close>

lemma list_all2_setD:
  assumes "list_all2 Q xs ys" "y \<in> set ys"
  shows "\<exists>x\<in>set xs. Q x y"
  using assms by (induction rule: list_all2_induct) auto

lemma column_values_map_filter:
  "(\<And>x. x \<in> set xs \<Longrightarrow> map_of (g x) c = f x) \<Longrightarrow>
   column_values c (map g xs) = List.map_filter f xs"
  by (induction xs) (auto simp: column_values_def map_filter_simps split: option.splits)

lemma set_map_filter: "set (List.map_filter f xs) = {v. \<exists>x\<in>set xs. f x = Some v}"
  by (force simp: List.map_filter_def image_iff)

lemma sorted_wrt_map_filter_upt:
  assumes "\<And>i j a b. i < j \<Longrightarrow> j < n \<Longrightarrow> f i = Some a \<Longrightarrow> f j = Some b \<Longrightarrow> P a b"
  shows "sorted_wrt P (List.map_filter f [0..<n])"
  using assms
proof (induction n)
  case 0
  then show ?case by (simp add: map_filter_simps)
next
  case (Suc n)
  have app: "List.map_filter f [0..<Suc n] = List.map_filter f [0..<n] @ List.map_filter f [n]"
    by (simp add: List.map_filter_def)
  have 1: "sorted_wrt P (List.map_filter f [0..<n])"
    by (rule Suc.IH) (rule Suc.prems, simp_all)
  have 2: "sorted_wrt P (List.map_filter f [n])"
    by (simp add: map_filter_simps split: option.splits)
  have 3: "P a b" if "a \<in> set (List.map_filter f [0..<n])" "b \<in> set (List.map_filter f [n])"
    for a b
  proof -
    from that(1) obtain i where "i < n" "f i = Some a" by (auto simp: set_map_filter)
    moreover from that(2) have "f n = Some b"
      by (auto simp: map_filter_simps split: option.splits)
    ultimately show ?thesis by (intro Suc.prems [of i n]) simp_all
  qed
  from 1 2 3 show ?case
    unfolding app by (simp add: sorted_wrt_append)
qed

theorem recorded_balances_counterexample:
  "validate [\<lparr>name = ''A'', balance = 1000, interest_rate = 0, min_payment = 50\<rparr>,
             \<lparr>name = ''B'', balance = 1000, interest_rate = 12, min_payment = 5\<rparr>] 500 = None \<and>
   column_values (balance_col ''B'')
     (projr (calculate_debt_payoff
            [\<lparr>name = ''A'', balance = 1000, interest_rate = 0, min_payment = 50\<rparr>,
             \<lparr>name = ''B'', balance = 1000, interest_rate = 12, min_payment = 5\<rparr>] ''snowball'' 500))
   = [1005, 20201 / 20, 1030301 / 2000, 3060401 / 200000, - (9790899499 / 20000000)] \<and>
   column_values (balance_col ''A'')
     (projr (calculate_debt_payoff
            [\<lparr>name = ''A'', balance = 1000, interest_rate = 0, min_payment = 50\<rparr>,
             \<lparr>name = ''B'', balance = 1000, interest_rate = 12, min_payment = 5\<rparr>] ''snowball'' 500))
   = [450, - 100] \<and>
   (1005 :: rat) < 20201 / 20 \<and> (- 100 :: rat) < 0 \<and>
   validate [\<lparr>name = ''A'', balance = 300, interest_rate = 0, min_payment = 100\<rparr>,
             \<lparr>name = ''A'', balance = 100, interest_rate = 0, min_payment = 100\<rparr>] 0 = None \<and>
   column_values (balance_col ''A'')
     (projr (calculate_debt_payoff
            [\<lparr>name = ''A'', balance = 300, interest_rate = 0, min_payment = 100\<rparr>,
             \<lparr>name = ''A'', balance = 100, interest_rate = 0, min_payment = 100\<rparr>] ''none'' 0))
   = [0, 100, 0] \<and>
   (0 :: rat) < 100"
  by code_simp

section \<open>The extra pool within one pass\<close>

lemma process_debt_payment:
  assumes "process_debt d s = (d', s')" "0 < balance d"
  shows "map_of (monthly_summary s') (payment_col (name d)) =
     Some (if balance d + monthly_interest d \<le> min_payment d
           then balance d + monthly_interest d
           else min_payment d + (if 0 < extra_remaining s then extra_remaining s else 0))"
  using assms
  by (auto simp: process_debt_def Let_def monthly_interest_def update_conv' split: if_splits)

text \<open>
  Claim C9, as the code has it. When an open debt takes the pool in the non-payoff
  branch (\<open>balance + interest > min_payment\<close> and pool \<open>R > 0\<close>), its payment is
  \<open>min_payment + R\<close> and the pool left for the debts after it is \<open>min R interest\<close>,
  which is positive when the interest is. Debts already paid off are skipped and leave the
  pool as it is. The next open debt is offered that pool: if it is in the non-payoff branch
  too, the pool is added to its minimum payment; if its minimum payment retires it, it
  pays exactly \<open>balance + interest\<close> and nothing of the pool. So a month's total payment
  can exceed the minimum payments plus the extra payment: two debts of 100 at 12 percent
  with minimum payment 50 and extra payment 10 pay 111 in the first month.
\<close>

theorem pool_carry_over:
  assumes "process_debt d s = (d', s')" "0 < balance d"
    and "min_payment d < balance d + monthly_interest d" "0 < extra_remaining s"
  shows "map_of (monthly_summary s') (payment_col (name d))
           = Some (min_payment d + extra_remaining s) \<and>
         extra_remaining s' = min (extra_remaining s) (monthly_interest d) \<and>
         (0 < monthly_interest d \<longrightarrow> 0 < extra_remaining s') \<and>
         (\<forall>c t. balance c \<le> 0 \<longrightarrow> process_debt c t = (c, t)) \<and>
         (\<forall>d2 t d2' t'.
            process_debt d2 t = (d2', t') \<and> extra_remaining t = extra_remaining s' \<and>
            0 < balance d2 \<and> 0 < monthly_interest d \<longrightarrow>
            map_of (monthly_summary t') (payment_col (name d2)) =
              Some (if balance d2 + monthly_interest d2 \<le> min_payment d2
                    then balance d2 + monthly_interest d2
                    else min_payment d2 + min (extra_remaining s) (monthly_interest d))) \<and>
         (\<exists>ledger.
            calculate_debt_payoff
              [\<lparr>name = ''A'', balance = 100, interest_rate = 12, min_payment = 50\<rparr>,
               \<lparr>name = ''B'', balance = 100, interest_rate = 12, min_payment = 50\<rparr>]
              ''snowball'' 10 = Inr ledger \<and>
            map_of (ledger ! 0) ''Total Payment'' = Some 111 \<and>
            map_of (ledger ! 0) (payment_col ''A'') = Some 60 \<and>
            map_of (ledger ! 0) (payment_col ''B'') = Some 51)"
proof -
  have 1: "map_of (monthly_summary s') (payment_col (name d))
           = Some (min_payment d + extra_remaining s)"
    using process_debt_payment [OF assms(1,2)] assms(3,4) by simp
  have 2: "extra_remaining s' = min (extra_remaining s) (monthly_interest d)"
    using process_debt_extra [OF assms(1,2)] assms(3,4) by (simp add: min_def max_def)
  have 3: "0 < monthly_interest d \<longrightarrow> 0 < extra_remaining s'"
    using assms(4) by (simp add: 2)
  have 4: "\<forall>c t. balance c \<le> 0 \<longrightarrow> process_debt c t = (c, t)"
    by (simp add: process_debt_skip)
  have 5: "\<forall>d2 t d2' t'.
            process_debt d2 t = (d2', t') \<and> extra_remaining t = extra_remaining s' \<and>
            0 < balance d2 \<and> 0 < monthly_interest d \<longrightarrow>
            map_of (monthly_summary t') (payment_col (name d2)) =
              Some (if balance d2 + monthly_interest d2 \<le> min_payment d2
                    then balance d2 + monthly_interest d2
                    else min_payment d2 + min (extra_remaining s) (monthly_interest d))"
  proof (intro allI impI)
    fix d2 t d2' t'
    assume a: "process_debt d2 t = (d2', t') \<and> extra_remaining t = extra_remaining s' \<and>
            0 < balance d2 \<and> 0 < monthly_interest d"
    then have p: "process_debt d2 t = (d2', t')" and b: "0 < balance d2" by simp_all
    from a 2 3 have "extra_remaining t = min (extra_remaining s) (monthly_interest d)"
      "0 < extra_remaining t" by simp_all
    with process_debt_payment [OF p b]
    show "map_of (monthly_summary t') (payment_col (name d2)) =
              Some (if balance d2 + monthly_interest d2 \<le> min_payment d2
                    then balance d2 + monthly_interest d2
                    else min_payment d2 + min (extra_remaining s) (monthly_interest d))"
      by simp
  qed
  have 6: "\<exists>ledger.
            calculate_debt_payoff
              [\<lparr>name = ''A'', balance = 100, interest_rate = 12, min_payment = 50\<rparr>,
               \<lparr>name = ''B'', balance = 100, interest_rate = 12, min_payment = 50\<rparr>]
              ''snowball'' 10 = Inr ledger \<and>
            map_of (ledger ! 0) ''Total Payment'' = Some 111 \<and>
            map_of (ledger ! 0) (payment_col ''A'') = Some 60 \<and>
            map_of (ledger ! 0) (payment_col ''B'') = Some 51"
  proof -
    have "calculate_debt_payoff
              [\<lparr>name = ''A'', balance = 100, interest_rate = 12, min_payment = 50\<rparr>,
               \<lparr>name = ''B'', balance = 100, interest_rate = 12, min_payment = 50\<rparr>]
              ''snowball'' 10 =
          Inr [[(''Month'', 1), (''Total Payment'', 111), (''Total Interest Paid'', 2),
                (''Debt A Balance'', 41), (''Debt A Payment'', 60), (''Debt A Interest'', 1),
                (''Debt B Balance'', 50), (''Debt B Payment'', 51), (''Debt B Interest'', 1)],
               [(''Month'', 2), (''Total Payment'', 10141 / 100),
                (''Total Interest Paid'', 291 / 100),
                (''Debt A Balance'', 0), (''Debt A Payment'', 4141 / 100),
                (''Debt A Interest'', 41 / 100),
                (''Debt B Balance'', - (19 / 2)), (''Debt B Payment'', 60),
                (''Debt B Interest'', 1 / 2)]]"
      by code_simp
    then show ?thesis
      by (simp add: payment_col_def)
  qed
  from 1 2 3 4 5 6 show ?thesis by blast
qed

theorem pool_carry_over_witness:
  "process_debt \<lparr>name = ''A'', balance = 100, interest_rate = 12, min_payment = 50\<rparr>
     \<lparr>extra_remaining = 10, total_interest_paid = 0, monthly_summary = []\<rparr>
   = (\<lparr>name = ''A'', balance = 41, interest_rate = 12, min_payment = 50\<rparr>,
      \<lparr>extra_remaining = 1, total_interest_paid = 1,
       monthly_summary = [(''Debt A Balance'', 41), (''Debt A Payment'', 60),
                          (''Debt A Interest'', 1)]\<rparr>) \<and>
   extra_remaining \<lparr>extra_remaining = 1, total_interest_paid = 1,
       monthly_summary = [(''Debt A Balance'', 41), (''Debt A Payment'', 60),
                          (''Debt A Interest'', 1 :: rat)]\<rparr>
   = min 10 (monthly_interest \<lparr>name = ''A'', balance = 100, interest_rate = 12, min_payment = 50\<rparr>)"
proof -
  let ?d = "\<lparr>name = ''A'', balance = 100 :: rat, interest_rate = 12, min_payment = 50\<rparr>"
  let ?s = "\<lparr>extra_remaining = 10 :: rat, total_interest_paid = 0, monthly_summary = []\<rparr>"
  let ?d' = "\<lparr>name = ''A'', balance = 41 :: rat, interest_rate = 12, min_payment = 50\<rparr>"
  let ?s' = "\<lparr>extra_remaining = 1, total_interest_paid = 1,
       monthly_summary = [(''Debt A Balance'', 41), (''Debt A Payment'', 60),
                          (''Debt A Interest'', 1 :: rat)]\<rparr>"
  have p: "process_debt ?d ?s = (?d', ?s')"
    by (simp add: process_debt_def balance_col_def payment_col_def interest_col_def)
  have b: "0 < balance ?d" by simp
  have m: "min_payment ?d < balance ?d + monthly_interest ?d"
    by (simp add: monthly_interest_def)
  have r: "0 < extra_remaining ?s" by simp
  from pool_carry_over [OF p b m r] have "extra_remaining ?s' = min (extra_remaining ?s) (monthly_interest ?d)"
    by blast
  with p show ?thesis by simp
qed

theorem pool_carry_over_counterexample:
  "calculate_debt_payoff
     [\<lparr>name = ''A'', balance = 100, interest_rate = 12, min_payment = 50\<rparr>,
      \<lparr>name = ''B'', balance = 10, interest_rate = 0, min_payment = 50\<rparr>] ''avalanche'' 10
   = Inr [[(''Month'', 1), (''Total Payment'', 70), (''Total Interest Paid'', 1),
           (''Debt A Balance'', 41), (''Debt A Payment'', 60), (''Debt A Interest'', 1),
           (''Debt B Balance'', 0), (''Debt B Payment'', 10), (''Debt B Interest'', 0)],
          [(''Month'', 2), (''Total Payment'', 4141 / 100), (''Total Interest Paid'', 141 / 100),
           (''Debt A Balance'', 0), (''Debt A Payment'', 4141 / 100),
           (''Debt A Interest'', 41 / 100)]] \<and>
   extra_remaining (snd (process_debt
       \<lparr>name = ''A'', balance = 100, interest_rate = 12, min_payment = 50\<rparr>
       \<lparr>extra_remaining = 10, total_interest_paid = 0, monthly_summary = []\<rparr>)) = 1"
  by code_simp

section \<open>Exact arithmetic is an instance\<close>

lemma exact_simps [simp]:
  "fadd exact = (+)" "fsub exact = (-)" "fmul exact = (*)" "fdiv exact = (/)"
  "fnum exact = of_nat"
  by (simp_all add: exact_def)

lemma monthly_interest_with_exact: "monthly_interest_with exact d = monthly_interest d"
  by (simp add: monthly_interest_with_def monthly_interest_def)

lemma check_debt_with_exact: "check_debt_with exact e d = check_debt e d"
  by (simp add: check_debt_with_def check_debt_def monthly_interest_with_exact)

lemma check_debts_with_exact: "check_debts_with exact e ds = check_debts e ds"
  by (induction ds) (simp_all add: check_debt_with_exact split: option.splits)

lemma validate_with_exact: "validate_with exact ds e = validate ds e"
  by (simp add: validate_with_def validate_def check_debts_with_exact)

lemma process_debt_with_exact: "process_debt_with exact d s = process_debt d s"
  by (simp add: process_debt_with_def process_debt_def Let_def max_def)

lemma process_debts_with_exact: "process_debts_with exact ds s = process_debts ds s"
  by (induction ds arbitrary: s) (simp_all add: process_debt_with_exact)

lemma foldl_add_sum_list: "foldl (+) a xs = a + sum_list (xs :: rat list)"
  by (induction xs arbitrary: a) (simp_all add: add.assoc)

lemma total_payment_with_exact: "total_payment_with exact ds ms = total_payment ds ms"
  by (simp add: total_payment_with_def total_payment_def foldl_add_sum_list)

lemma loop_body_with_exact: "loop_body_with exact e st = loop_body e st"
  by (simp add: loop_body_with_def loop_body_def process_debts_with_exact
      total_payment_with_exact)

lemma loop_cond_with_exact: "loop_cond_with exact st = loop_cond st"
  by (simp add: loop_cond_with_def loop_cond_def)

lemma payoff_loop_with_exact: "payoff_loop_with exact e st = payoff_loop e st"
proof (induction e st rule: payoff_loop.induct)
  case (1 e st)
  show ?case
  proof (cases "loop_cond st")
    case True
    with "1.IH" show ?thesis
      by (simp add: payoff_loop.simps [of e st] payoff_loop_with.simps [of exact e st]
          loop_cond_with_exact loop_body_with_exact)
  next
    case False
    then show ?thesis
      by (simp add: payoff_loop.simps [of e st] payoff_loop_with.simps [of exact e st]
          loop_cond_with_exact)
  qed
qed

lemma initial_state_with_exact: "initial_state_with exact ds = initial_state ds"
  by (simp add: initial_state_with_def initial_state_def)

lemma simulate_with_exact: "simulate_with exact method e ds = simulate method e ds"
  by (simp add: simulate_with_def simulate_def payoff_loop_with_exact initial_state_with_exact)

lemma calculate_debt_payoff_with_exact:
  "calculate_debt_payoff_with exact ds method e = calculate_debt_payoff ds method e"
  by (simp add: calculate_debt_payoff_with_def calculate_debt_payoff_def validate_with_exact
      simulate_with_exact split: option.splits)

lemma after_months_with_exact:
  "after_months_with exact method e ds k = after_months method e ds k"
proof -
  have "loop_body_with exact e = loop_body e"
    by (rule ext) (rule loop_body_with_exact)
  then show ?thesis
    by (simp add: after_months_with_def after_months_def initial_state_with_exact)
qed

lemma monotone_arith_exact: "monotone_arith exact"
  by (simp add: monotone_arith_def mult_right_mono divide_right_mono)

section \<open>Validation, for every arithmetic\<close>

lemma check_debts_with_None:
  "check_debts_with ar extra ds = None \<longleftrightarrow> (\<forall>d\<in>set ds. check_debt_with ar extra d = None)"
  by (induction ds) (auto split: option.splits)

lemma check_debt_with_None:
  "check_debt_with ar extra d = None \<longleftrightarrow>
     \<not> (balance d \<le> fnum ar 0 \<or> interest_rate d < fnum ar 0 \<or> min_payment d \<le> fnum ar 0 \<or>
        (min_payment d \<le> monthly_interest_with ar d \<and> extra = fnum ar 0))"
  by (auto simp: check_debt_with_def)

lemma validate_with_None_checks:
  "validate_with ar ds extra = None \<longleftrightarrow>
     ds \<noteq> [] \<and> check_debts_with ar extra ds = None \<and> \<not> extra < fnum ar 0"
  by (simp add: validate_with_def split: option.splits)

lemma validate_with_None:
  "validate_with ar ds extra = None \<longleftrightarrow>
     ds \<noteq> [] \<and> fnum ar 0 \<le> extra \<and>
     (\<forall>d\<in>set ds. fnum ar 0 < balance d \<and> fnum ar 0 \<le> interest_rate d \<and>
        fnum ar 0 < min_payment d \<and>
        (extra = fnum ar 0 \<longrightarrow> monthly_interest_with ar d < min_payment d))"
  unfolding validate_with_None_checks check_debts_with_None check_debt_with_None
  by (auto simp: not_le not_less)

text \<open>
  Claim C3. Whatever the arithmetic of the numbers, the function raises a validation
  error if and only if the list of debts is empty, or some debt has \<open>balance \<le> 0\<close>,
  \<open>interest_rate < 0\<close>, \<open>min_payment \<le> 0\<close>, or
  \<open>min_payment \<le> balance * (interest_rate / 100) / 12\<close> (as that arithmetic computes
  it) while the extra payment is 0, or the extra payment is negative. The result is either
  such an error, which carries no ledger at all, or the ledger of the complete simulation:
  the checks come first and nothing of the simulation is returned when one of them fails.
\<close>

theorem validation_error_iff:
  "((\<exists>err. calculate_debt_payoff_with ar ds method extra = Inl err) \<longleftrightarrow>
      ds = [] \<or>
      (\<exists>d\<in>set ds. balance d \<le> fnum ar 0 \<or> interest_rate d < fnum ar 0 \<or>
         min_payment d \<le> fnum ar 0 \<or>
         (min_payment d
            \<le> fdiv ar (fmul ar (balance d) (fdiv ar (interest_rate d) (fnum ar 100)))
                 (fnum ar 12) \<and>
          extra = fnum ar 0)) \<or>
      extra < fnum ar 0) \<and>
   ((\<exists>err. calculate_debt_payoff_with ar ds method extra = Inl err) \<or>
      calculate_debt_payoff_with ar ds method extra
        = Inr (results (simulate_with ar method extra ds)))"
proof -
  have "(\<exists>err. calculate_debt_payoff_with ar ds method extra = Inl err)
        \<longleftrightarrow> validate_with ar ds extra \<noteq> None"
    by (auto simp: calculate_debt_payoff_with_def split: option.splits)
  moreover have "validate_with ar ds extra \<noteq> None \<longleftrightarrow>
      ds = [] \<or>
      (\<exists>d\<in>set ds. balance d \<le> fnum ar 0 \<or> interest_rate d < fnum ar 0 \<or>
         min_payment d \<le> fnum ar 0 \<or>
         (min_payment d
            \<le> fdiv ar (fmul ar (balance d) (fdiv ar (interest_rate d) (fnum ar 100)))
                 (fnum ar 12) \<and>
          extra = fnum ar 0)) \<or>
      extra < fnum ar 0"
    unfolding validate_with_None monthly_interest_with_def by (auto simp: not_le not_less)
  moreover have "(\<exists>err. calculate_debt_payoff_with ar ds method extra = Inl err) \<or>
      calculate_debt_payoff_with ar ds method extra
        = Inr (results (simulate_with ar method extra ds))"
    by (auto simp: calculate_debt_payoff_with_def split: option.splits)
  ultimately show ?thesis by simp
qed

theorem validation_error_iff_witness:
  "calculate_debt_payoff_with exact
     [\<lparr>name = ''Card'', balance = 1200, interest_rate = 24, min_payment = 24\<rparr>] ''snowball'' 0
   = Inl (MinPaymentBelowInterest ''Card'' 24 24)"
  using validation_error_iff
    [of exact "[\<lparr>name = ''Card'', balance = 1200, interest_rate = 24, min_payment = 24\<rparr>]"
        "''snowball''" 0]
  by (simp add: calculate_debt_payoff_with_def validate_with_def check_debt_with_def
      monthly_interest_with_def)

section \<open>The loop, for every arithmetic\<close>

lemma loop_body_with_month [simp]: "month (loop_body_with ar e st) = Suc (month st)"
  by (simp add: loop_body_with_def Let_def split: prod.splits)

lemma loop_body_with_results_length [simp]:
  "length (results (loop_body_with ar e st)) = Suc (length (results st))"
  by (simp add: loop_body_with_def Let_def split: prod.splits)

lemma loop_body_with_results:
  "results (loop_body_with ar e st) = results st @ [month_record_with ar e st]"
  by (simp add: month_record_with_def loop_body_with_def Let_def split: prod.splits)

lemma payoff_loop_with_funpow:
  "\<exists>n. payoff_loop_with ar e st = (loop_body_with ar e ^^ n) st \<and>
       \<not> loop_cond_with ar ((loop_body_with ar e ^^ n) st) \<and>
       (\<forall>k<n. loop_cond_with ar ((loop_body_with ar e ^^ k) st))"
proof (induction ar e st rule: payoff_loop_with.induct)
  case (1 ar e st)
  show ?case
  proof (cases "loop_cond_with ar st")
    case False
    then have "payoff_loop_with ar e st = (loop_body_with ar e ^^ 0) st \<and>
       \<not> loop_cond_with ar ((loop_body_with ar e ^^ 0) st) \<and>
       (\<forall>k<0. loop_cond_with ar ((loop_body_with ar e ^^ k) st))"
      by (simp add: payoff_loop_with.simps [of ar e st])
    then show ?thesis by blast
  next
    case True
    from "1.IH" [OF True] obtain n where
      n: "payoff_loop_with ar e (loop_body_with ar e st)
            = (loop_body_with ar e ^^ n) (loop_body_with ar e st)"
         "\<not> loop_cond_with ar ((loop_body_with ar e ^^ n) (loop_body_with ar e st))"
         "\<forall>k<n. loop_cond_with ar ((loop_body_with ar e ^^ k) (loop_body_with ar e st))"
      by blast
    have "payoff_loop_with ar e st = payoff_loop_with ar e (loop_body_with ar e st)"
      using True by (simp add: payoff_loop_with.simps [of ar e st])
    then have "payoff_loop_with ar e st = (loop_body_with ar e ^^ Suc n) st"
      using n(1) by (simp add: funpow_swap1)
    moreover have "\<not> loop_cond_with ar ((loop_body_with ar e ^^ Suc n) st)"
      using n(2) by (simp add: funpow_swap1)
    moreover have "\<forall>k<Suc n. loop_cond_with ar ((loop_body_with ar e ^^ k) st)"
    proof (intro allI impI)
      fix k assume "k < Suc n"
      show "loop_cond_with ar ((loop_body_with ar e ^^ k) st)"
      proof (cases k)
        case 0
        with True show ?thesis by simp
      next
        case (Suc j)
        with \<open>k < Suc n\<close> n(3) show ?thesis by (simp add: funpow_swap1)
      qed
    qed
    ultimately show ?thesis by blast
  qed
qed

lemma funpow_with_month [simp]: "month ((loop_body_with ar e ^^ k) st) = month st + k"
  by (induction k) simp_all

lemma funpow_with_results_length [simp]:
  "length (results ((loop_body_with ar e ^^ k) st)) = length (results st) + k"
  by (induction k) simp_all

lemma funpow_with_results_Suc:
  "results ((loop_body_with ar e ^^ Suc k) st)
   = results ((loop_body_with ar e ^^ k) st)
     @ [month_record_with ar e ((loop_body_with ar e ^^ k) st)]"
  by (simp add: loop_body_with_results)

lemma funpow_with_results_nth:
  assumes "j < k"
  shows "results ((loop_body_with ar e ^^ k) st) ! (length (results st) + j)
         = month_record_with ar e ((loop_body_with ar e ^^ j) st)"
  using assms
proof (induction k)
  case 0
  then show ?case by simp
next
  case (Suc k)
  show ?case
  proof (cases "j = k")
    case True
    then show ?thesis
      unfolding funpow_with_results_Suc by (simp add: nth_append)
  next
    case False
    with Suc.prems have "j < k" by simp
    from Suc.IH [OF this] \<open>j < k\<close> show ?thesis
      unfolding funpow_with_results_Suc by (simp add: nth_append)
  qed
qed

lemma loop_with_month_bound:
  assumes "\<forall>k<n. loop_cond_with ar ((loop_body_with ar e ^^ k) st)"
  shows "month st + n \<le> Suc MAX_PAYOFF_MONTHS \<or> n = 0"
proof (cases n)
  case 0
  then show ?thesis by simp
next
  case (Suc m)
  with assms have "loop_cond_with ar ((loop_body_with ar e ^^ m) st)" by simp
  then have "month st + m \<le> MAX_PAYOFF_MONTHS" by (simp add: loop_cond_with_def)
  with Suc show ?thesis by simp
qed

lemma after_months_with_0 [simp]:
  "after_months_with ar method e ds 0 = initial_state_with ar (order_debts method ds)"
  by (simp add: after_months_with_def)

lemma after_months_with_Suc:
  "after_months_with ar method e ds (Suc k)
   = loop_body_with ar e (after_months_with ar method e ds k)"
  by (simp add: after_months_with_def)

lemma after_months_with_month [simp]: "month (after_months_with ar method e ds k) = Suc k"
  by (simp add: after_months_with_def initial_state_with_def)

lemma after_months_with_results_length [simp]:
  "length (results (after_months_with ar method e ds k)) = k"
  by (simp add: after_months_with_def initial_state_with_def)

lemma after_months_with_results_nth:
  "j < k \<Longrightarrow> results (after_months_with ar method e ds k) ! j
             = month_record_with ar e (after_months_with ar method e ds j)"
  using funpow_with_results_nth
    [where j = j and k = k and e = e and ar = ar
       and st = "initial_state_with ar (order_debts method ds)"]
  by (simp add: after_months_with_def initial_state_with_def)

lemma after_months_with_results:
  "results (after_months_with ar method e ds k)
   = map (\<lambda>j. month_record_with ar e (after_months_with ar method e ds j)) [0..<k]"
  by (rule nth_equalityI) (simp_all add: after_months_with_results_nth)

lemma simulate_with_after_months:
  obtains n where
    "simulate_with ar method e ds = after_months_with ar method e ds n"
    "n \<le> MAX_PAYOFF_MONTHS"
    "\<not> loop_cond_with ar (after_months_with ar method e ds n)"
    "\<forall>k<n. loop_cond_with ar (after_months_with ar method e ds k)"
proof -
  let ?st = "initial_state_with ar (order_debts method ds)"
  obtain n where n: "payoff_loop_with ar e ?st = (loop_body_with ar e ^^ n) ?st"
    "\<not> loop_cond_with ar ((loop_body_with ar e ^^ n) ?st)"
    "\<forall>k<n. loop_cond_with ar ((loop_body_with ar e ^^ k) ?st)"
    using payoff_loop_with_funpow [of ar e ?st] by blast
  from loop_with_month_bound [OF n(3)] have "n \<le> MAX_PAYOFF_MONTHS"
    by (auto simp: initial_state_with_def)
  with n show thesis
    by (intro that [of n]) (simp_all add: simulate_with_def after_months_with_def)
qed

section \<open>Termination and the ceiling\<close>

text \<open>
  Claim C2. For every input accepted by validation, and whatever the arithmetic of the
  numbers, the simulation loop terminates and the function returns a ledger of at most
  1200 monthly records. Every month that was simulated started with some debt still open
  (\<^verbatim>\<open>balance > 0\<close>), and when the ledger has fewer than 1200 records no debt is open
  any more after its last month: the loop stops before the ceiling exactly when the
  balance of every debt has come down to zero, which the guard of the loop tests as
  \<^verbatim>\<open>balance > 0\<close> being false.
\<close>

theorem payoff_terminates:
  assumes "validate_with ar ds e = None"
  shows "\<exists>ledger. calculate_debt_payoff_with ar ds method e = Inr ledger \<and>
           length ledger \<le> 1200 \<and>
           ledger = results (after_months_with ar method e ds (length ledger)) \<and>
           (\<forall>k<length ledger.
              \<exists>d\<in>set (debts (after_months_with ar method e ds k)). fnum ar 0 < balance d) \<and>
           (length ledger < 1200 \<longrightarrow>
              (\<forall>d\<in>set (debts (after_months_with ar method e ds (length ledger))).
                 \<not> fnum ar 0 < balance d))"
proof -
  obtain n where n: "simulate_with ar method e ds = after_months_with ar method e ds n"
    "n \<le> MAX_PAYOFF_MONTHS"
    "\<not> loop_cond_with ar (after_months_with ar method e ds n)"
    "\<forall>k<n. loop_cond_with ar (after_months_with ar method e ds k)"
    by (rule simulate_with_after_months)
  let ?ledger = "results (simulate_with ar method e ds)"
  have len: "length ?ledger = n" by (simp add: n(1))
  have 1: "calculate_debt_payoff_with ar ds method e = Inr ?ledger"
    using assms by (simp add: calculate_debt_payoff_with_def)
  have 2: "length ?ledger \<le> 1200"
    using n(2) by (simp add: len MAX_PAYOFF_MONTHS_def)
  have 3: "?ledger = results (after_months_with ar method e ds (length ?ledger))"
    by (simp add: len) (simp add: n(1))
  have 4: "\<forall>k<length ?ledger.
      \<exists>d\<in>set (debts (after_months_with ar method e ds k)). fnum ar 0 < balance d"
    using n(4) by (simp add: len loop_cond_with_def list_ex_iff)
  have 5: "length ?ledger < 1200 \<longrightarrow>
      (\<forall>d\<in>set (debts (after_months_with ar method e ds (length ?ledger))).
         \<not> fnum ar 0 < balance d)"
    using n(3) by (auto simp: len loop_cond_with_def list_ex_iff MAX_PAYOFF_MONTHS_def)
  from 1 2 3 4 5 show ?thesis by blast
qed

theorem payoff_terminates_witness:
  "validate_with exact
     [\<lparr>name = ''Loan'', balance = 1000, interest_rate = 12, min_payment = 600\<rparr>] 0 = None \<and>
   (\<exists>ledger. calculate_debt_payoff_with exact
       [\<lparr>name = ''Loan'', balance = 1000, interest_rate = 12, min_payment = 600\<rparr>] ''snowball'' 0
       = Inr ledger \<and> length ledger \<le> 1200)"
proof -
  have v: "validate_with exact
      [\<lparr>name = ''Loan'', balance = 1000, interest_rate = 12, min_payment = 600\<rparr>] 0 = None"
    by (simp add: validate_with_def check_debt_with_def monthly_interest_with_def)
  from payoff_terminates [OF v, of "''snowball''"] v show ?thesis by blast
qed

section \<open>One debt, for every arithmetic\<close>

lemma process_debt_with_skip:
  "balance d \<le> fnum ar 0 \<Longrightarrow> process_debt_with ar d s = (d, s)"
  by (simp add: process_debt_with_def)

lemma process_debt_with_open:
  assumes "fnum ar 0 < balance d"
  shows "fst (process_debt_with ar d s) =
     d\<lparr>balance :=
          fsub ar (balance d)
            (fsub ar
               (if fadd ar (balance d) (monthly_interest_with ar d) \<le> min_payment d
                then fadd ar (balance d) (monthly_interest_with ar d)
                else fadd ar (min_payment d)
                       (if fnum ar 0 < extra_remaining s then extra_remaining s else fnum ar 0))
               (monthly_interest_with ar d))\<rparr>"
proof -
  from assms have n: "\<not> balance d \<le> fnum ar 0" by simp
  show ?thesis
    by (simp add: process_debt_with_def Let_def n monthly_interest_with_def)
qed

lemma process_debt_with_open_summary:
  assumes "fnum ar 0 < balance d"
  shows "monthly_summary (snd (process_debt_with ar d s)) =
     AList.update (interest_col (name d)) (monthly_interest_with ar d)
       (AList.update (payment_col (name d))
          (if fadd ar (balance d) (monthly_interest_with ar d) \<le> min_payment d
           then fadd ar (balance d) (monthly_interest_with ar d)
           else fadd ar (min_payment d)
                  (if fnum ar 0 < extra_remaining s then extra_remaining s else fnum ar 0))
          (AList.update (balance_col (name d)) (balance (fst (process_debt_with ar d s)))
             (monthly_summary s)))"
proof -
  from assms have n: "\<not> balance d \<le> fnum ar 0" by simp
  show ?thesis
    by (simp add: process_debt_with_def Let_def n monthly_interest_with_def)
qed

lemma process_debt_with_fields:
  assumes "process_debt_with ar d s = (d', s')"
  shows "name d' = name d" "interest_rate d' = interest_rate d" "min_payment d' = min_payment d"
proof -
  have "name (fst (process_debt_with ar d s)) = name d \<and>
        interest_rate (fst (process_debt_with ar d s)) = interest_rate d \<and>
        min_payment (fst (process_debt_with ar d s)) = min_payment d"
  proof (cases "fnum ar 0 < balance d")
    case True
    then show ?thesis by (simp add: process_debt_with_open [OF True])
  next
    case False
    then show ?thesis by (simp add: process_debt_with_skip not_less)
  qed
  with assms show "name d' = name d" "interest_rate d' = interest_rate d"
    "min_payment d' = min_payment d"
    by simp_all
qed

lemma process_debt_with_balance:
  assumes "process_debt_with ar d s = (d', s')" "fnum ar 0 < balance d"
  shows "balance d' =
     fsub ar (balance d)
       (fsub ar
          (if fadd ar (balance d) (monthly_interest_with ar d) \<le> min_payment d
           then fadd ar (balance d) (monthly_interest_with ar d)
           else fadd ar (min_payment d)
                  (if fnum ar 0 < extra_remaining s then extra_remaining s else fnum ar 0))
          (monthly_interest_with ar d))"
proof -
  from assms(1) have "d' = fst (process_debt_with ar d s)" by simp
  then show ?thesis
    by (simp add: process_debt_with_open [OF assms(2)])
qed

lemma process_debt_with_summary:
  assumes "process_debt_with ar d s = (d', s')" "fnum ar 0 < balance d"
  shows "map_of (monthly_summary s') =
         (map_of (monthly_summary s))
           (balance_col (name d) \<mapsto> balance d',
            payment_col (name d) \<mapsto>
              (if fadd ar (balance d) (monthly_interest_with ar d) \<le> min_payment d
               then fadd ar (balance d) (monthly_interest_with ar d)
               else fadd ar (min_payment d)
                      (if fnum ar 0 < extra_remaining s then extra_remaining s else fnum ar 0)),
            interest_col (name d) \<mapsto> monthly_interest_with ar d)"
proof -
  from assms(1) have "s' = snd (process_debt_with ar d s)" "d' = fst (process_debt_with ar d s)"
    by simp_all
  then show ?thesis
    by (simp only: process_debt_with_open_summary [OF assms(2)] update_conv')
qed

lemma process_debt_with_balance_col:
  assumes "process_debt_with ar d s = (d', s')" "fnum ar 0 < balance d"
  shows "map_of (monthly_summary s') (balance_col (name d)) = Some (balance d')"
  by (simp add: process_debt_with_summary [OF assms])

lemma process_debt_with_other_key:
  assumes "process_debt_with ar d s = (d', s')"
    and "fnum ar 0 < balance d \<Longrightarrow>
           c \<noteq> balance_col (name d) \<and> c \<noteq> payment_col (name d) \<and> c \<noteq> interest_col (name d)"
  shows "map_of (monthly_summary s') c = map_of (monthly_summary s) c"
proof (cases "fnum ar 0 < balance d")
  case True
  with assms(2) show ?thesis by (simp add: process_debt_with_summary [OF assms(1) True])
next
  case False
  with assms(1) show ?thesis by (simp add: process_debt_with_skip not_less)
qed

section \<open>Rounding that keeps the order\<close>

lemma monotone_arithD:
  assumes "monotone_arith ar"
  shows "fnum ar 0 \<le> y \<Longrightarrow> x \<le> fadd ar x y"
    and "fnum ar 0 \<le> x \<Longrightarrow> y \<le> fadd ar x y"
    and "fnum ar 0 \<le> y \<Longrightarrow> fsub ar x y \<le> x"
    and "y \<le> x \<Longrightarrow> fnum ar 0 \<le> fsub ar x y"
    and "fnum ar 0 \<le> c \<Longrightarrow> x \<le> y \<Longrightarrow> fmul ar x c \<le> fmul ar y c"
    and "x \<le> y \<Longrightarrow> fdiv ar x (fnum ar 12) \<le> fdiv ar y (fnum ar 12)"
    and "fnum ar 0 \<le> x \<Longrightarrow> fnum ar 0 \<le> fdiv ar x (fnum ar 100)"
  using assms by (simp_all add: monotone_arith_def)

lemma monthly_interest_with_mono:
  assumes "monotone_arith ar" "balance d' \<le> balance d" "interest_rate d' = interest_rate d"
    "fnum ar 0 \<le> interest_rate d"
  shows "monthly_interest_with ar d' \<le> monthly_interest_with ar d"
proof -
  have "fnum ar 0 \<le> fdiv ar (interest_rate d) (fnum ar 100)"
    using assms(1,4) by (rule monotone_arithD(7))
  then have "fmul ar (balance d') (fdiv ar (interest_rate d) (fnum ar 100))
             \<le> fmul ar (balance d) (fdiv ar (interest_rate d) (fnum ar 100))"
    using assms(2) by (rule monotone_arithD(5) [OF assms(1)])
  then show ?thesis
    unfolding monthly_interest_with_def assms(3) by (rule monotone_arithD(6) [OF assms(1)])
qed

text \<open>A debt whose minimum payment exceeds the interest of the month.\<close>

lemma process_debt_with_decreases:
  assumes "monotone_arith ar" "process_debt_with ar d s = (d', s')"
    and "fnum ar 0 \<le> interest_rate d"
    and "fnum ar 0 < balance d \<longrightarrow> monthly_interest_with ar d < min_payment d"
  shows "balance d' \<le> balance d"
    and "fnum ar 0 \<le> interest_rate d'"
    and "fnum ar 0 < balance d' \<longrightarrow> monthly_interest_with ar d' < min_payment d'"
proof -
  have f: "interest_rate d' = interest_rate d" "min_payment d' = min_payment d"
    using process_debt_with_fields [OF assms(2)] by simp_all
  show le: "balance d' \<le> balance d"
  proof (cases "fnum ar 0 < balance d")
    case True
    let ?i = "monthly_interest_with ar d"
    let ?pool = "if fnum ar 0 < extra_remaining s then extra_remaining s else fnum ar 0"
    let ?payment = "if fadd ar (balance d) ?i \<le> min_payment d
           then fadd ar (balance d) ?i else fadd ar (min_payment d) ?pool"
    from True assms(4) have cover: "?i < min_payment d" by simp
    have "?i \<le> ?payment"
    proof (cases "fadd ar (balance d) ?i \<le> min_payment d")
      case True
      from \<open>fnum ar 0 < balance d\<close> have "fnum ar 0 \<le> balance d" by simp
      then have "?i \<le> fadd ar (balance d) ?i"
        by (rule monotone_arithD(2) [OF assms(1)])
      with True show ?thesis by simp
    next
      case False
      have "fnum ar 0 \<le> ?pool" by (simp add: less_imp_le)
      then have "min_payment d \<le> fadd ar (min_payment d) ?pool"
        by (rule monotone_arithD(1) [OF assms(1)])
      with cover False show ?thesis by simp
    qed
    then have "fnum ar 0 \<le> fsub ar ?payment ?i"
      by (rule monotone_arithD(4) [OF assms(1)])
    then have "fsub ar (balance d) (fsub ar ?payment ?i) \<le> balance d"
      by (rule monotone_arithD(3) [OF assms(1)])
    then show ?thesis
      unfolding process_debt_with_balance [OF assms(2) True] .
  next
    case False
    with assms(2) show ?thesis by (simp add: process_debt_with_skip not_less)
  qed
  show "fnum ar 0 \<le> interest_rate d'" using assms(3) by (simp add: f)
  show "fnum ar 0 < balance d' \<longrightarrow> monthly_interest_with ar d' < min_payment d'"
  proof
    assume pos: "fnum ar 0 < balance d'"
    with le have "fnum ar 0 < balance d" by simp
    with assms(4) have "monthly_interest_with ar d < min_payment d" by simp
    moreover have "monthly_interest_with ar d' \<le> monthly_interest_with ar d"
      using assms(1) le f(1) assms(3) by (rule monthly_interest_with_mono)
    ultimately show "monthly_interest_with ar d' < min_payment d'" by (simp add: f)
  qed
qed

section \<open>One pass and one month, for every arithmetic\<close>

lemma process_debts_with_fields:
  assumes "process_debts_with ar ds s = (ds', s')"
  shows "length ds' = length ds \<and> map name ds' = map name ds \<and>
    map interest_rate ds' = map interest_rate ds \<and> map min_payment ds' = map min_payment ds"
  using assms
proof (induction ds arbitrary: s ds' s')
  case Nil
  then show ?case by simp
next
  case (Cons x xs)
  obtain d1 s1 where a: "process_debt_with ar x s = (d1, s1)" by force
  obtain ds2 s2 where b: "process_debts_with ar xs s1 = (ds2, s2)" by force
  from Cons.prems have eq: "ds' = d1 # ds2" by (simp add: a b)
  from process_debt_with_fields [OF a] Cons.IH [OF b] show ?case
    by (simp add: eq)
qed

lemma process_debts_with_other_key:
  assumes "process_debts_with ar ds s = (ds', s')"
    and "\<And>d. d \<in> set ds \<Longrightarrow> fnum ar 0 < balance d \<Longrightarrow>
           c \<noteq> balance_col (name d) \<and> c \<noteq> payment_col (name d) \<and> c \<noteq> interest_col (name d)"
  shows "map_of (monthly_summary s') c = map_of (monthly_summary s) c"
  using assms
proof (induction ds arbitrary: s ds' s')
  case Nil
  then show ?case by simp
next
  case (Cons d ds)
  obtain d1 s1 where 1: "process_debt_with ar d s = (d1, s1)" by force
  obtain ds2 s2 where 2: "process_debts_with ar ds s1 = (ds2, s2)" by force
  from Cons.prems(1) 1 2 have s': "s' = s2" by simp
  have "map_of (monthly_summary s1) c = map_of (monthly_summary s) c"
    using 1 Cons.prems(2) by (intro process_debt_with_other_key) auto
  moreover have "map_of (monthly_summary s2) c = map_of (monthly_summary s1) c"
    using 2 Cons.prems(2) by (intro Cons.IH) auto
  ultimately show ?case by (simp add: s')
qed

lemma process_debts_with_balance_col:
  assumes "process_debts_with ar ds s = (ds', s')" "distinct (map name ds)"
    "j < length ds" "fnum ar 0 < balance (ds ! j)"
  shows "map_of (monthly_summary s') (balance_col (name (ds ! j))) = Some (balance (ds' ! j))"
  using assms
proof (induction ds arbitrary: s ds' s' j)
  case Nil
  then show ?case by simp
next
  case (Cons x ds)
  obtain d1 s1 where 1: "process_debt_with ar x s = (d1, s1)" by force
  obtain ds2 s2 where 2: "process_debts_with ar ds s1 = (ds2, s2)" by force
  from Cons.prems(1) 1 2 have eq: "ds' = d1 # ds2" "s' = s2" by simp_all
  show ?case
  proof (cases j)
    case 0
    with Cons.prems(4) have opn: "fnum ar 0 < balance x" by simp
    have "map_of (monthly_summary s2) (balance_col (name x))
          = map_of (monthly_summary s1) (balance_col (name x))"
    proof (rule process_debts_with_other_key [OF 2])
      fix d assume "d \<in> set ds"
      then have "name d \<in> name ` set ds" by (rule imageI)
      with Cons.prems(2) have "name d \<noteq> name x" by auto
      then show "balance_col (name x) \<noteq> balance_col (name d) \<and>
          balance_col (name x) \<noteq> payment_col (name d) \<and>
          balance_col (name x) \<noteq> interest_col (name d)"
        by auto
    qed
    with process_debt_with_balance_col [OF 1 opn] show ?thesis
      by (simp add: 0 eq)
  next
    case (Suc i)
    with Cons.prems have "distinct (map name ds)" "i < length ds" "fnum ar 0 < balance (ds ! i)"
      by simp_all
    from Cons.IH [OF 2 this] show ?thesis
      by (simp add: Suc eq)
  qed
qed

lemma process_debts_with_rel:
  assumes "process_debts_with ar ds s = (ds', s')" "\<forall>d\<in>set ds. P d"
    and step: "\<And>d s d' s'. P d \<Longrightarrow> process_debt_with ar d s = (d', s') \<Longrightarrow> Q d d'"
  shows "list_all2 Q ds ds'"
  using assms(1,2)
proof (induction ds arbitrary: s ds' s')
  case Nil
  then show ?case by simp
next
  case (Cons x ds)
  obtain d1 s1 where 1: "process_debt_with ar x s = (d1, s1)" by force
  obtain ds2 s2 where 2: "process_debts_with ar ds s1 = (ds2, s2)" by force
  from Cons.prems(1) 1 2 have eq: "ds' = d1 # ds2" by simp
  from Cons.prems(2) have "P x" by simp
  from step [OF this 1] have q: "Q x d1" .
  from Cons.prems(2) have "\<forall>d\<in>set ds. P d" by simp
  from Cons.IH [OF 2 this] q show ?case by (simp add: eq)
qed

lemma loop_body_with_cases:
  obtains ds' s' where
    "process_debts_with ar (debts st)
       \<lparr>extra_remaining = e, total_interest_paid = interest_paid st,
        monthly_summary = [(''Month'', fnum ar (month st)), (''Total Payment'', fnum ar 0),
                 (''Total Interest Paid'', interest_paid st)]\<rparr> = (ds', s')"
    "debts (loop_body_with ar e st) = ds'"
    "month_record_with ar e st =
       AList.update ''Total Interest Paid'' (total_interest_paid s')
         (AList.update ''Total Payment'' (total_payment_with ar ds' (monthly_summary s'))
            (monthly_summary s'))"
proof -
  obtain ds' s' where p: "process_debts_with ar (debts st)
       \<lparr>extra_remaining = e, total_interest_paid = interest_paid st,
        monthly_summary = [(''Month'', fnum ar (month st)), (''Total Payment'', fnum ar 0),
                 (''Total Interest Paid'', interest_paid st)]\<rparr> = (ds', s')"
    by force
  show thesis
    by (rule that [OF p]) (simp_all add: month_record_with_def loop_body_with_def p Let_def)
qed

lemma loop_body_with_debts:
  "length (debts (loop_body_with ar e st)) = length (debts st)"
  "map name (debts (loop_body_with ar e st)) = map name (debts st)"
  "map interest_rate (debts (loop_body_with ar e st)) = map interest_rate (debts st)"
  "map min_payment (debts (loop_body_with ar e st)) = map min_payment (debts st)"
proof -
  obtain ds' s' where p: "process_debts_with ar (debts st)
       \<lparr>extra_remaining = e, total_interest_paid = interest_paid st,
        monthly_summary = [(''Month'', fnum ar (month st)), (''Total Payment'', fnum ar 0),
                 (''Total Interest Paid'', interest_paid st)]\<rparr> = (ds', s')"
    and d: "debts (loop_body_with ar e st) = ds'"
    by (rule loop_body_with_cases)
  from process_debts_with_fields [OF p]
  show "length (debts (loop_body_with ar e st)) = length (debts st)"
    "map name (debts (loop_body_with ar e st)) = map name (debts st)"
    "map interest_rate (debts (loop_body_with ar e st)) = map interest_rate (debts st)"
    "map min_payment (debts (loop_body_with ar e st)) = map min_payment (debts st)"
    by (simp_all add: d)
qed

lemma loop_body_with_rel:
  assumes "\<forall>d\<in>set (debts st). P d"
    and step: "\<And>d s d' s'. P d \<Longrightarrow> process_debt_with ar d s = (d', s') \<Longrightarrow> Q d d'"
  shows "list_all2 Q (debts st) (debts (loop_body_with ar e st))"
proof -
  obtain ds' s' where p: "process_debts_with ar (debts st)
       \<lparr>extra_remaining = e, total_interest_paid = interest_paid st,
        monthly_summary = [(''Month'', fnum ar (month st)), (''Total Payment'', fnum ar 0),
                 (''Total Interest Paid'', interest_paid st)]\<rparr> = (ds', s')"
    and d: "debts (loop_body_with ar e st) = ds'"
    by (rule loop_body_with_cases)
  have "list_all2 Q (debts st) ds'"
    by (rule process_debts_with_rel [OF p assms(1)]) (rule step)
  then show ?thesis by (simp add: d)
qed

lemma month_record_with_balance_col:
  assumes "distinct (map name (debts st))" "j < length (debts st)"
    "fnum ar 0 < balance (debts st ! j)"
  shows "map_of (month_record_with ar e st) (balance_col (name (debts st ! j)))
           = Some (balance (debts (loop_body_with ar e st) ! j))"
proof -
  obtain ds' s' where p: "process_debts_with ar (debts st)
       \<lparr>extra_remaining = e, total_interest_paid = interest_paid st,
        monthly_summary = [(''Month'', fnum ar (month st)), (''Total Payment'', fnum ar 0),
                 (''Total Interest Paid'', interest_paid st)]\<rparr> = (ds', s')"
    and d: "debts (loop_body_with ar e st) = ds'"
    and r: "month_record_with ar e st =
       AList.update ''Total Interest Paid'' (total_interest_paid s')
         (AList.update ''Total Payment'' (total_payment_with ar ds' (monthly_summary s'))
            (monthly_summary s'))"
    by (rule loop_body_with_cases)
  from process_debts_with_balance_col [OF p assms] show ?thesis
    by (simp add: r d update_conv')
qed

lemma month_record_with_closed:
  assumes "\<And>d. d \<in> set (debts st) \<Longrightarrow> name d = n \<Longrightarrow> \<not> fnum ar 0 < balance d"
  shows "map_of (month_record_with ar e st) (balance_col n) = None"
proof -
  let ?s0 = "\<lparr>extra_remaining = e, total_interest_paid = interest_paid st,
              monthly_summary = [(''Month'', fnum ar (month st)), (''Total Payment'', fnum ar 0),
                 (''Total Interest Paid'', interest_paid st)]\<rparr>"
  obtain ds' s' where p: "process_debts_with ar (debts st) ?s0 = (ds', s')"
    and r: "month_record_with ar e st =
       AList.update ''Total Interest Paid'' (total_interest_paid s')
         (AList.update ''Total Payment'' (total_payment_with ar ds' (monthly_summary s'))
            (monthly_summary s'))"
    by (rule loop_body_with_cases)
  have "map_of (monthly_summary s') (balance_col n) = map_of (monthly_summary ?s0) (balance_col n)"
  proof (rule process_debts_with_other_key [OF p])
    fix d assume "d \<in> set (debts st)" "fnum ar 0 < balance d"
    with assms have "name d \<noteq> n" by force
    then show "balance_col n \<noteq> balance_col (name d) \<and> balance_col n \<noteq> payment_col (name d) \<and>
        balance_col n \<noteq> interest_col (name d)"
      by auto
  qed
  then show ?thesis
    by (simp add: r update_conv')
qed

section \<open>Balances month after month, for every arithmetic\<close>

lemma length_order_debts [simp]: "length (order_debts method ds) = length ds"
proof -
  have "mset (order_debts method ds) = mset ds"
    by (simp add: order_debts_def sorted_by_def sorted_by_reverse_def)
  then show ?thesis by (rule mset_eq_length)
qed

lemma after_months_with_fields:
  "length (debts (after_months_with ar method e ds k)) = length ds"
  "map name (debts (after_months_with ar method e ds k)) = map name (order_debts method ds)"
  "map interest_rate (debts (after_months_with ar method e ds k))
     = map interest_rate (order_debts method ds)"
  "map min_payment (debts (after_months_with ar method e ds k))
     = map min_payment (order_debts method ds)"
proof -
  show "length (debts (after_months_with ar method e ds k)) = length ds"
    by (induction k)
       (simp_all add: after_months_with_Suc loop_body_with_debts initial_state_with_def)
  show "map name (debts (after_months_with ar method e ds k)) = map name (order_debts method ds)"
    by (induction k)
       (simp_all add: after_months_with_Suc loop_body_with_debts initial_state_with_def)
  show "map interest_rate (debts (after_months_with ar method e ds k))
        = map interest_rate (order_debts method ds)"
    by (induction k)
       (simp_all add: after_months_with_Suc loop_body_with_debts initial_state_with_def)
  show "map min_payment (debts (after_months_with ar method e ds k))
        = map min_payment (order_debts method ds)"
    by (induction k)
       (simp_all add: after_months_with_Suc loop_body_with_debts initial_state_with_def)
qed

lemma after_months_with_distinct_names:
  "distinct (map name (debts (after_months_with ar method e ds k))) \<longleftrightarrow> distinct (map name ds)"
  unfolding after_months_with_fields by (rule distinct_names_order_debts)

lemma after_months_with_decreasing:
  assumes "monotone_arith ar" "validate_with ar ds e = None"
    and "\<forall>x\<in>set ds. monthly_interest_with ar x < min_payment x"
  shows "(\<forall>d\<in>set (debts (after_months_with ar method e ds k)).
            fnum ar 0 \<le> interest_rate d \<and>
            (fnum ar 0 < balance d \<longrightarrow> monthly_interest_with ar d < min_payment d)) \<and>
         list_all2 (\<lambda>d d'. balance d' \<le> balance d)
            (debts (after_months_with ar method e ds k))
            (debts (after_months_with ar method e ds (Suc k)))"
proof -
  let ?S = "after_months_with ar method e ds"
  let ?P = "\<lambda>d. fnum ar 0 \<le> interest_rate d \<and>
                (fnum ar 0 < balance d \<longrightarrow> monthly_interest_with ar d < min_payment d)"
  let ?Q = "\<lambda>d d'. balance d' \<le> balance d \<and> ?P d'"
  have step: "list_all2 ?Q (debts (?S j)) (debts (loop_body_with ar e (?S j)))"
    if "\<forall>d\<in>set (debts (?S j)). ?P d" for j
  proof (rule loop_body_with_rel [where P = ?P, OF that])
    fix d s d' s'
    assume "?P d" "process_debt_with ar d s = (d', s')"
    with process_debt_with_decreases [OF assms(1), of d s d' s'] show "?Q d d'"
      by blast
  qed
  have inv: "\<forall>d\<in>set (debts (?S k)). ?P d"
  proof (induction k)
    case 0
    from assms(2,3) show ?case
      by (simp add: initial_state_with_def validate_with_None)
  next
    case (Suc k)
    show ?case
    proof
      fix d' assume "d' \<in> set (debts (?S (Suc k)))"
      then have "d' \<in> set (debts (loop_body_with ar e (?S k)))"
        by (simp add: after_months_with_Suc)
      from list_all2_setD [OF step [OF Suc.IH] this] show "?P d'" by blast
    qed
  qed
  from step [OF inv] have "list_all2 (\<lambda>d d'. balance d' \<le> balance d) (debts (?S k))
      (debts (?S (Suc k)))"
    unfolding after_months_with_Suc by (rule list_all2_mono) simp
  with inv show ?thesis by blast
qed

lemma after_months_with_balance_antimono:
  assumes "monotone_arith ar" "validate_with ar ds e = None"
    and "\<forall>x\<in>set ds. monthly_interest_with ar x < min_payment x"
    and "j < length ds" "k \<le> k'"
  shows "balance (debts (after_months_with ar method e ds k') ! j)
         \<le> balance (debts (after_months_with ar method e ds k) ! j)"
proof -
  have "balance (debts (after_months_with ar method e ds (Suc i)) ! j)
         \<le> balance (debts (after_months_with ar method e ds i) ! j)" for i
  proof -
    from after_months_with_decreasing [OF assms(1,2,3)]
    have "list_all2 (\<lambda>d d'. balance d' \<le> balance d)
            (debts (after_months_with ar method e ds i))
            (debts (after_months_with ar method e ds (Suc i)))"
      by blast
    then show ?thesis
      by (rule list_all2_nthD) (simp add: after_months_with_fields assms(4))
  qed
  then show ?thesis
    using assms(5) by (rule lift_Suc_antimono_le)
qed

lemma recorded_balance_with:
  assumes "distinct (map name ds)" "j < length ds" "order_debts method ds ! j = d"
  shows "map_of (month_record_with ar e (after_months_with ar method e ds k))
             (balance_col (name d)) =
           (if fnum ar 0 < balance (debts (after_months_with ar method e ds k) ! j)
            then Some (balance (debts (after_months_with ar method e ds (Suc k)) ! j))
            else None)"
proof -
  let ?st = "after_months_with ar method e ds k"
  have len: "length (debts ?st) = length ds" by (rule after_months_with_fields)
  have dist: "distinct (map name (debts ?st))"
    using assms(1) by (simp add: after_months_with_distinct_names)
  have "map name (debts ?st) ! j = map name (order_debts method ds) ! j"
    by (simp add: after_months_with_fields)
  then have nm: "name (debts ?st ! j) = name d"
    using assms(2,3) len by simp
  show ?thesis
  proof (cases "fnum ar 0 < balance (debts ?st ! j)")
    case True
    from month_record_with_balance_col [OF dist _ True, of e] assms(2) len show ?thesis
      by (simp add: nm True after_months_with_Suc)
  next
    case False
    have "\<not> fnum ar 0 < balance x" if "x \<in> set (debts ?st)" "name x = name d" for x
    proof -
      from that(1) obtain i where i: "i < length (debts ?st)" "debts ?st ! i = x"
        by (auto simp: in_set_conv_nth)
      with that(2) nm have "map name (debts ?st) ! i = map name (debts ?st) ! j"
        using assms(2) len by simp
      moreover have "i < length (map name (debts ?st))" "j < length (map name (debts ?st))"
        using i(1) assms(2) len by simp_all
      with dist have "(map name (debts ?st) ! i = map name (debts ?st) ! j) = (i = j)"
        by (rule nth_eq_iff_index_eq)
      ultimately have "i = j" by simp
      with i(2) False show ?thesis by auto
    qed
    from month_record_with_closed [of ?st "name d" ar e, OF this] False show ?thesis by simp
  qed
qed

text \<open>
  Claim C1, as the code has it. Take an arithmetic whose rounding keeps the order, and a
  validated portfolio with distinct debt names in which the minimum payment of every debt
  exceeds its first month's interest (validation enforces this when the extra payment is
  0, and only then). Then, for every debt, the balances recorded for it down the ledger
  never increase.
\<close>

theorem recorded_balances:
  assumes "monotone_arith ar" "validate_with ar ds e = None" "distinct (map name ds)"
    and "calculate_debt_payoff_with ar ds method e = Inr ledger" "d \<in> set ds"
    and "e = fnum ar 0 \<or> (\<forall>x\<in>set ds. monthly_interest_with ar x < min_payment x)"
  shows "sorted_wrt (\<lambda>a b. b \<le> a) (column_values (balance_col (name d)) ledger)"
proof -
  let ?S = "after_months_with ar method e ds"
  have cover: "\<forall>x\<in>set ds. monthly_interest_with ar x < min_payment x"
    using assms(2,6) by (auto simp: validate_with_None)
  from assms(5) have "d \<in> set (order_debts method ds)" by simp
  then obtain j where j: "j < length (order_debts method ds)" "order_debts method ds ! j = d"
    unfolding in_set_conv_nth by blast
  then have jl: "j < length ds" by simp
  let ?B = "\<lambda>k. balance (debts (?S k) ! j)"
  let ?f = "\<lambda>k. if fnum ar 0 < ?B k then Some (?B (Suc k)) else None"
  obtain n where n: "simulate_with ar method e ds = ?S n"
    by (rule simulate_with_after_months)
  from assms(4) have "ledger = results (simulate_with ar method e ds)"
    by (simp add: calculate_debt_payoff_with_def split: option.splits)
  then have l: "ledger = map (\<lambda>k. month_record_with ar e (?S k)) [0..<n]"
    by (simp add: n after_months_with_results)
  have cv: "column_values (balance_col (name d)) ledger = List.map_filter ?f [0..<n]"
    unfolding l
    by (rule column_values_map_filter) (rule recorded_balance_with [OF assms(3) jl j(2)])
  have "sorted_wrt (\<lambda>a b. b \<le> a) (List.map_filter ?f [0..<n])"
  proof (rule sorted_wrt_map_filter_upt)
    fix i k a b
    assume "i < k" "?f i = Some a" "?f k = Some b"
    then have "a = ?B (Suc i)" "b = ?B (Suc k)" "Suc i \<le> Suc k"
      by (auto split: if_splits)
    with after_months_with_balance_antimono
      [OF assms(1,2) cover jl, of "Suc i" "Suc k" "method"]
    show "b \<le> a" by simp
  qed
  then show ?thesis
    unfolding cv .
qed

theorem recorded_balances_witness:
  "column_values (balance_col ''Loan'')
     [[(''Month'', 1), (''Total Payment'', 600), (''Total Interest Paid'', 10),
       (''Debt Loan Balance'', 410 :: rat), (''Debt Loan Payment'', 600),
       (''Debt Loan Interest'', 10)],
      [(''Month'', 2), (''Total Payment'', 4141 / 10), (''Total Interest Paid'', 141 / 10),
       (''Debt Loan Balance'', 0), (''Debt Loan Payment'', 4141 / 10),
       (''Debt Loan Interest'', 41 / 10)]] = [410, 0] \<and>
   sorted_wrt (\<lambda>a b. b \<le> a) (column_values (balance_col ''Loan'')
     [[(''Month'', 1), (''Total Payment'', 600), (''Total Interest Paid'', 10),
       (''Debt Loan Balance'', 410), (''Debt Loan Payment'', 600), (''Debt Loan Interest'', 10)],
      [(''Month'', 2), (''Total Payment'', 4141 / 10), (''Total Interest Paid'', 141 / 10),
       (''Debt Loan Balance'', 0), (''Debt Loan Payment'', 4141 / 10),
       (''Debt Loan Interest'', 41 / 10 :: rat)]])"
proof -
  let ?d = "\<lparr>name = ''Loan'', balance = 1000 :: rat, interest_rate = 12, min_payment = 600\<rparr>"
  let ?L = "[[(''Month'', 1), (''Total Payment'', 600), (''Total Interest Paid'', 10),
       (''Debt Loan Balance'', 410), (''Debt Loan Payment'', 600), (''Debt Loan Interest'', 10)],
      [(''Month'', 2), (''Total Payment'', 4141 / 10), (''Total Interest Paid'', 141 / 10),
       (''Debt Loan Balance'', 0), (''Debt Loan Payment'', 4141 / 10),
       (''Debt Loan Interest'', 41 / 10 :: rat)]]"
  have a: "monotone_arith exact" by (rule monotone_arith_exact)
  have v: "validate_with exact [?d] 0 = None"
    by (simp add: validate_with_def check_debt_with_def monthly_interest_with_def)
  have dn: "distinct (map name [?d])" by simp
  have "calculate_debt_payoff [?d] ''snowball'' 0 = Inr ?L"
    by code_simp
  then have c: "calculate_debt_payoff_with exact [?d] ''snowball'' 0 = Inr ?L"
    by (simp only: calculate_debt_payoff_with_exact)
  have m: "?d \<in> set [?d]" by simp
  have e: "(0::rat) = fnum exact 0 \<or>
      (\<forall>x\<in>set [?d]. monthly_interest_with exact x < min_payment x)" by simp
  have cv: "column_values (balance_col ''Loan'') ?L = [410, 0]"
    by code_simp
  from recorded_balances [OF a v dn c m e] cv show ?thesis by simp
qed

end
